theory Spec2Isabelle
  imports Complex_Main "HOL-Library.AList" "HOL-Library.Multiset"
begin

section \<open>Python values, errors and dictionaries\<close>

text \<open>
  The generators of \<^verbatim>\<open>pinnacle_pacific_data\<close> write every sheet row as a dictionary
  from column names to strings, and \<^verbatim>\<open>verify_financials\<close> reads those strings back with
  \<^verbatim>\<open>float\<close>, \<^verbatim>\<open>int\<close> and truthiness tests. A cell is a Python string, kept here by what
  it spells:
  \<^item> \<open>IntStr n\<close> is the decimal spelling of the integer \<open>n\<close>, as \<^verbatim>\<open>str(n)\<close> writes it;
  \<^item> \<open>DecStr v\<close> is a spelling of \<open>v\<close> with a decimal point, as \<^verbatim>\<open>f"{v:.2f}"\<close> writes it;
  \<^item> \<open>Text s\<close> is any other string, the empty string included.

  In the sections on the reports and on the generators Python's \<^verbatim>\<open>float\<close> is idealized
  as \<open>real\<close>: sums and differences are exact, and every tolerance of the source is
  compared as the exact decimal it is written as. Where a property depends on how
  \<^verbatim>\<open>float\<close> rounds, which is the case for the order of the additions of the balance
  checker and of the projector, the same lines of the source are embedded over IEEE 754
  binary64 in the last two sections of the definitions (\<open>je_totals_add64\<close>,
  \<open>unbalanced64\<close>, \<open>gl_add64\<close>, \<open>gl_sub64\<close>, \<open>project_invoice64\<close>).
\<close>

datatype error = KeyError | ValueError | AssertionError | IndexError | ZeroDivisionError

datatype cell = IntStr int | DecStr real | Text string

type_synonym row = "(string \<times> cell) list"

definition bindE :: "error + 'a \<Rightarrow> ('a \<Rightarrow> error + 'b) \<Rightarrow> error + 'b" where
  "bindE m f = (case m of Inl e \<Rightarrow> Inl e | Inr x \<Rightarrow> f x)"

fun mapE :: "('a \<Rightarrow> error + 'b) \<Rightarrow> 'a list \<Rightarrow> error + 'b list" where
  "mapE f [] = Inr []"
| "mapE f (x # xs) = bindE (f x) (\<lambda>y. bindE (mapE f xs) (\<lambda>ys. Inr (y # ys)))"

text \<open>\<^verbatim>\<open>bool(c)\<close> of a string: only the empty string is falsy.\<close>

fun truthy :: "cell \<Rightarrow> bool" where
  "truthy (Text s) = (s \<noteq> [])"
| "truthy (IntStr n) = True"
| "truthy (DecStr v) = True"

text \<open>\<^verbatim>\<open>float(c)\<close> and \<^verbatim>\<open>int(c)\<close> of a string; \<^verbatim>\<open>int("12.00")\<close> raises.\<close>

fun py_float :: "cell \<Rightarrow> error + real" where
  "py_float (IntStr n) = Inr (of_int n)"
| "py_float (DecStr v) = Inr v"
| "py_float (Text s) = Inl ValueError"

fun py_int :: "cell \<Rightarrow> error + int" where
  "py_int (IntStr n) = Inr n"
| "py_int (DecStr v) = Inl ValueError"
| "py_int (Text s) = Inl ValueError"

text \<open>\<^verbatim>\<open>r[k]\<close> raises \<^verbatim>\<open>KeyError\<close> on a missing column; \<^verbatim>\<open>r.get(k)\<close> gives \<^verbatim>\<open>None\<close>.\<close>

definition getitem :: "row \<Rightarrow> string \<Rightarrow> error + cell" where
  "getitem r k = (case map_of r k of None \<Rightarrow> Inl KeyError | Some c \<Rightarrow> Inr c)"

definition get :: "row \<Rightarrow> string \<Rightarrow> cell option" where
  "get r k = map_of r k"

text \<open>
  A \<^verbatim>\<open>defaultdict\<close> is an association list in insertion order with one pair per key.
  \<open>lookup0\<close> reads a balance, zero for a key never written; \<open>gl_add k x\<close> is
  \<^verbatim>\<open>gl_balances[k] += x\<close> and \<open>gl_sub k x\<close> is \<^verbatim>\<open>gl_balances[k] -= x\<close>: both create the key.
\<close>

type_synonym gl_balances = "(int \<times> real) list"

definition lookup0 :: "('k \<times> real) list \<Rightarrow> 'k \<Rightarrow> real" where
  "lookup0 d k = (case map_of d k of None \<Rightarrow> 0 | Some v \<Rightarrow> v)"

definition gl_add :: "int \<Rightarrow> real \<Rightarrow> gl_balances \<Rightarrow> gl_balances" where
  "gl_add k x d = AList.update k (lookup0 d k + x) d"

definition gl_sub :: "int \<Rightarrow> real \<Rightarrow> gl_balances \<Rightarrow> gl_balances" where
  "gl_sub k x d = AList.update k (lookup0 d k - x) d"

section \<open>verify\_financials: reading the rows\<close>

text \<open>
  What the first loop reads of a journal row (lines 41 to 44), what the second loop
  reads of it (lines 60 to 62), and what the third loop reads of an invoice row
  (lines 74 to 79), each in the order of the source.
\<close>

record je_amounts =
  entry_number :: cell
  debit :: real
  credit :: real

record je_posting =
  account_number :: int
  dr :: real
  cr :: real

record invoice =
  amt :: real
  ret :: real
  gl :: "int option"
  is_paid :: bool
  invoice_type :: cell

text \<open>\<^verbatim>\<open>float(r[k]) if r[k] else 0\<close>\<close>

definition float_or_0 :: "row \<Rightarrow> string \<Rightarrow> error + real" where
  "float_or_0 r k =
     bindE (getitem r k) (\<lambda>c. if truthy c then bindE (getitem r k) py_float else Inr 0)"

text \<open>\<^verbatim>\<open>float(inv[k]) if inv.get(k) else 0\<close>\<close>

definition float_or_0_get :: "row \<Rightarrow> string \<Rightarrow> error + real" where
  "float_or_0_get r k =
     (case get r k of
        None \<Rightarrow> Inr 0
      | Some c \<Rightarrow> if truthy c then bindE (getitem r k) py_float else Inr 0)"

text \<open>\<^verbatim>\<open>int(inv[k]) if inv.get(k) else None\<close>\<close>

definition int_or_None_get :: "row \<Rightarrow> string \<Rightarrow> error + int option" where
  "int_or_None_get r k =
     (case get r k of
        None \<Rightarrow> Inr None
      | Some c \<Rightarrow>
          if truthy c then bindE (bindE (getitem r k) py_int) (\<lambda>n. Inr (Some n))
          else Inr None)"

definition read_je_amounts :: "row \<Rightarrow> error + je_amounts" where
  "read_je_amounts r =
     bindE (float_or_0 r ''debit'') (\<lambda>d.
     bindE (float_or_0 r ''credit'') (\<lambda>c.
     bindE (getitem r ''entry_number'') (\<lambda>je.
       Inr \<lparr>entry_number = je, debit = d, credit = c\<rparr>)))"

definition read_je_posting :: "row \<Rightarrow> error + je_posting" where
  "read_je_posting r =
     bindE (bindE (getitem r ''account_number'') py_int) (\<lambda>acct.
     bindE (float_or_0 r ''debit'') (\<lambda>d.
     bindE (float_or_0 r ''credit'') (\<lambda>c.
       Inr \<lparr>account_number = acct, dr = d, cr = c\<rparr>)))"

definition read_invoice :: "row \<Rightarrow> error + invoice" where
  "read_invoice iv =
     bindE (bindE (getitem iv ''amount'') py_float) (\<lambda>a.
     bindE (float_or_0_get iv ''retainage_held'') (\<lambda>rt.
     bindE (int_or_None_get iv ''gl_account'') (\<lambda>g.
     bindE (getitem iv ''status'') (\<lambda>st.
     bindE (getitem iv ''invoice_type'') (\<lambda>ty.
       Inr \<lparr>amt = a, ret = rt, gl = g, is_paid = (st = Text ''paid''),
            invoice_type = ty\<rparr>)))))"

section \<open>verify\_financials: the balance checker (step 1)\<close>

type_synonym je_totals = "(cell \<times> real \<times> real) list"

text \<open>
  \<^verbatim>\<open>je_totals[je][0] += dr; je_totals[je][1] += cr\<close> on a
  \<^verbatim>\<open>defaultdict(lambda: [0.0, 0.0])\<close>.
\<close>

definition totals_of :: "je_totals \<Rightarrow> cell \<Rightarrow> real \<times> real" where
  "totals_of t je = (case map_of t je of None \<Rightarrow> (0, 0) | Some p \<Rightarrow> p)"

definition je_totals_add :: "je_amounts \<Rightarrow> je_totals \<Rightarrow> je_totals" where
  "je_totals_add l t =
     (let t1 = AList.update (entry_number l)
                 (fst (totals_of t (entry_number l)) + debit l,
                  snd (totals_of t (entry_number l))) t
      in AList.update (entry_number l)
                 (fst (totals_of t1 (entry_number l)),
                  snd (totals_of t1 (entry_number l)) + credit l) t1)"

definition je_totals :: "je_amounts list \<Rightarrow> je_totals" where
  "je_totals ls = fold je_totals_add ls []"

text \<open>The entries the loop of lines 47 to 50 prints, and its counter.\<close>

definition unbalanced_entries :: "je_totals \<Rightarrow> (cell \<times> real \<times> real) list" where
  "unbalanced_entries t = filter (\<lambda>(je, d, c). \<bar>d - c\<bar> > 0.02) t"

definition unbalanced :: "je_totals \<Rightarrow> nat" where
  "unbalanced t = fold (\<lambda>(je, d, c) n. if \<bar>d - c\<bar> > 0.02 then n + 1 else n) t 0"

section \<open>verify\_financials: the trial balance from journal lines (step 2)\<close>

definition gl_post :: "je_posting \<Rightarrow> gl_balances \<Rightarrow> gl_balances" where
  "gl_post p g = gl_add (account_number p) (dr p - cr p) g"

definition gl_from_jes :: "je_posting list \<Rightarrow> gl_balances" where
  "gl_from_jes ps = fold gl_post ps []"

section \<open>verify\_financials: the invoice-to-ledger projector (step 3)\<close>

text \<open>
  The body of the loop of lines 79 to 99. The test \<^verbatim>\<open>if gl:\<close> is Python truthiness of
  an \<^verbatim>\<open>int\<close> or \<^verbatim>\<open>None\<close>: it fails for \<^verbatim>\<open>None\<close> and for the account number 0.
\<close>

definition gl_truthy :: "int option \<Rightarrow> bool" where
  "gl_truthy g = (case g of None \<Rightarrow> False | Some a \<Rightarrow> a \<noteq> 0)"

definition project_invoice :: "invoice \<Rightarrow> gl_balances \<Rightarrow> gl_balances" where
  "project_invoice iv g =
     (if invoice_type iv = Text ''receivable'' then
        (let net_ar = amt iv - ret iv;
             g1 = gl_add 1010 net_ar g;
             g2 = (if ret iv > 0 then gl_add 1020 (ret iv) g1 else g1);
             g3 = (if gl_truthy (gl iv) then gl_sub (the (gl iv)) (amt iv) g2 else g2)
         in if is_paid iv then gl_sub 1010 net_ar (gl_add 1000 net_ar g3) else g3)
      else if invoice_type iv = Text ''payable'' then
        (let net_ap = amt iv - ret iv;
             g1 = (if gl_truthy (gl iv) then gl_add (the (gl iv)) (amt iv) g else g);
             g2 = gl_sub 2000 net_ap g1;
             g3 = (if ret iv > 0 then gl_sub 2010 (ret iv) g2 else g2)
         in if is_paid iv then gl_sub 1000 net_ap (gl_add 2000 net_ap g3) else g3)
      else g)"

definition project_invoices :: "invoice list \<Rightarrow> gl_balances \<Rightarrow> gl_balances" where
  "project_invoices invs g = fold project_invoice invs g"

section \<open>Constants of the financial model (part01\_constants)\<close>




definition TOTAL_REVENUE :: int where
  "TOTAL_REVENUE = 198000000 + 47700000 + 10200000 + 8500000"

definition DIRECT_COST_ACCOUNTS :: "(int \<times> string \<times> int) list" where
  "DIRECT_COST_ACCOUNTS =
     [(5000, ''Subcontractor Costs - Structural'', 98000000),
      (5010, ''Subcontractor Costs - MEP'', 42000000),
      (5020, ''Subcontractor Costs - Concrete'', 28000000),
      (5030, ''Subcontractor Costs - Steel & Metals'', 18000000),
      (5100, ''Materials - Concrete & Aggregate'', 12000000),
      (5110, ''Materials - Steel & Rebar'', 8500000),
      (5120, ''Materials - Lumber & Framing'', 3200000),
      (5130, ''Materials - Electrical & Plumbing'', 4800000),
      (5200, ''Direct Labor - Field'', 6500000),
      (5210, ''Direct Labor - Payroll Taxes'', 1300000),
      (5300, ''Equipment Operations'', 2700000)]"

definition TOTAL_DIRECT :: int where
  "TOTAL_DIRECT = sum_list (map (\<lambda>(acct, name, annual). annual) DIRECT_COST_ACCOUNTS)"

definition PROPERTY_MGMT_ACCOUNTS :: "(int \<times> string \<times> int) list" where
  "PROPERTY_MGMT_ACCOUNTS =
     [(6200, ''Property Management Fees'', 1200000),
      (6210, ''Property Insurance'', 960000),
      (6220, ''Property Taxes'', 1440000),
      (6230, ''Utilities - Common Areas'', 720000),
      (6240, ''Repairs & Maintenance - Property'', 480000)]"

definition TOTAL_PROP_MGMT :: int where
  "TOTAL_PROP_MGMT = sum_list (map (\<lambda>(acct, name, annual). annual) PROPERTY_MGMT_ACCOUNTS)"

definition OVERHEAD_ACCOUNTS :: "(int \<times> string \<times> int) list" where
  "OVERHEAD_ACCOUNTS =
     [(6000, ''Officer & Admin Salaries'', 5400000),
      (6010, ''G&A Payroll Taxes & Benefits'', 1620000),
      (6020, ''Office Rent & Utilities'', 1080000),
      (6030, ''Professional Services'', 2400000),
      (6040, ''Insurance - General Liability'', 3600000),
      (6050, ''IT & Software'', 960000),
      (6060, ''Marketing & Business Dev'', 540000),
      (6070, ''Travel & Entertainment'', 360000),
      (6080, ''Bonds & Surety'', 2240000)]"

definition TOTAL_OVERHEAD :: int where
  "TOTAL_OVERHEAD = sum_list (map (\<lambda>(acct, name, annual). annual) OVERHEAD_ACCOUNTS)"

definition DEPRECIATION :: int where
  "DEPRECIATION = 2400000"

definition INTEREST_EXPENSE :: int where
  "INTEREST_EXPENSE = 4800000"

definition NET_INCOME :: int where
  "NET_INCOME = TOTAL_REVENUE - TOTAL_DIRECT - TOTAL_PROP_MGMT - TOTAL_OVERHEAD
                 - DEPRECIATION - INTEREST_EXPENSE"


section \<open>verify\_financials: the trial balance report (step 4)\<close>

text \<open>
  The lines \<^verbatim>\<open>verify_financials\<close> prints, each kept with the values it formats; the
  rules, titles and column headers it prints between them carry no value and are left
  out. An account name is a string: \<open>IntStr acct\<close> is \<^verbatim>\<open>str(acct)\<close>.
\<close>

datatype report_line =
    UNBALANCED_JE cell real real
  | JE_OK nat
  | JE_FAIL nat
  | TB_DEBIT int cell real
  | TB_CREDIT int cell real
  | TB_TOTALS real real
  | TB_DIFFERENCE real
  | TB_OK
  | TB_WARN real
  | IS_REVENUE real
  | IS_EXPENSES real
  | IS_NET_INCOME real
  | IS_TARGET real
  | NI_OK real
  | NI_WARN real

definition acct_names :: "(int \<times> string) list" where
  "acct_names =
     [(1000, ''Cash & Equivalents''), (1010, ''Accounts Receivable''),
      (1020, ''Retainage Receivable''), (1030, ''Costs in Excess''),
      (1040, ''Prepaid Expenses''), (1050, ''Rent Receivable''),
      (1100, ''Equipment & Vehicles''), (1110, ''Accum Dep - Equipment''),
      (1120, ''Buildings & Improvements''), (1130, ''Accum Dep - Buildings''),
      (1200, ''Land''), (1300, ''Security Deposits''),
      (2000, ''Accounts Payable''), (2010, ''Retainage Payable''),
      (2020, ''Accrued Payroll''), (2030, ''Accrued Expenses''),
      (2040, ''Billings in Excess''), (2050, ''Sales Tax Payable''),
      (2060, ''Deferred Rental Revenue''), (2100, ''Equipment Financing''),
      (2200, ''Construction LOC''), (2210, ''Mortgage Payable''),
      (3000, ''Owners Capital''), (3010, ''Retained Earnings''),
      (4000, ''Contract Revenue - Airport''), (4010, ''Contract Revenue - Condo''),
      (4100, ''Rental Income''), (4200, ''Change Order Revenue''),
      (6100, ''Depreciation - Equipment''), (6110, ''Depreciation - Buildings''),
      (7000, ''Interest Expense'')]"

definition acct_name :: "int \<Rightarrow> cell" where
  "acct_name acct =
     (let name = (case map_of (DIRECT_COST_ACCOUNTS @ PROPERTY_MGMT_ACCOUNTS @ OVERHEAD_ACCOUNTS)
                         acct of
                    None \<Rightarrow> IntStr acct
                  | Some (row_name, annual) \<Rightarrow> Text row_name)
      in case map_of acct_names acct of None \<Rightarrow> name | Some n \<Rightarrow> Text n)"

text \<open>
  One pass of the loop of lines 109 to 143 over an account: the state is the lines
  printed so far, \<^verbatim>\<open>total_dr\<close> and \<^verbatim>\<open>total_cr\<close>. A balance below one cent in absolute
  value takes the \<^verbatim>\<open>continue\<close>: no line, and no share in either total.
\<close>

definition tb_step ::
  "gl_balances \<Rightarrow> int \<Rightarrow> report_line list \<times> real \<times> real \<Rightarrow> report_line list \<times> real \<times> real" where
  "tb_step g acct st =
     (case st of (out, total_dr, total_cr) \<Rightarrow>
        (let bal = lookup0 g acct in
         if \<bar>bal\<bar> < 0.01 then (out, total_dr, total_cr)
         else if bal > 0 then (out @ [TB_DEBIT acct (acct_name acct) bal], total_dr + bal, total_cr)
         else (out @ [TB_CREDIT acct (acct_name acct) (- bal)], total_dr, total_cr + - bal)))"

definition trial_balance :: "gl_balances \<Rightarrow> report_line list \<times> real \<times> real" where
  "trial_balance g = fold (tb_step g) (sort (map fst g)) ([], 0, 0)"

definition tb_diff :: "gl_balances \<Rightarrow> real" where
  "tb_diff g = (case trial_balance g of (out, total_dr, total_cr) \<Rightarrow> total_dr - total_cr)"

definition tb_balanced :: "gl_balances \<Rightarrow> bool" where
  "tb_balanced g = (\<bar>tb_diff g\<bar> < 1.0)"

section \<open>verify\_financials: the income statement (step 5)\<close>

definition revenue :: "gl_balances \<Rightarrow> real" where
  "revenue g =
     fold (\<lambda>acct rev. if map_of g acct \<noteq> None then rev + - lookup0 g acct else rev)
          [4000..4999] 0"

definition expenses :: "gl_balances \<Rightarrow> real" where
  "expenses g =
     fold (\<lambda>acct ex. if map_of g acct \<noteq> None then ex + lookup0 g acct else ex)
          [5000..7999] 0"

definition net_income :: "gl_balances \<Rightarrow> real" where
  "net_income g = revenue g - expenses g"

text \<open>
  The source compares with the module constant \<^verbatim>\<open>NET_INCOME\<close>; the target is an
  argument here and \<open>verify_financials\<close> passes the constant.
\<close>

definition ni_diff :: "real \<Rightarrow> gl_balances \<Rightarrow> real" where
  "ni_diff target g = net_income g - target"

definition ni_within_target :: "real \<Rightarrow> gl_balances \<Rightarrow> bool" where
  "ni_within_target target g = (\<bar>ni_diff target g\<bar> < 100000)"

section \<open>verify\_financials as a whole\<close>

definition report :: "je_totals \<Rightarrow> gl_balances \<Rightarrow> report_line list" where
  "report t g =
     map (\<lambda>(je, d, c). UNBALANCED_JE je d c) (unbalanced_entries t)
     @ [if unbalanced t = 0 then JE_OK (length t) else JE_FAIL (unbalanced t)]
     @ (case trial_balance g of (out, total_dr, total_cr) \<Rightarrow>
          out @ [TB_TOTALS total_dr total_cr, TB_DIFFERENCE (total_dr - total_cr)])
     @ [if tb_balanced g then TB_OK else TB_WARN (tb_diff g)]
     @ [IS_REVENUE (revenue g), IS_EXPENSES (expenses g), IS_NET_INCOME (net_income g),
        IS_TARGET (of_int NET_INCOME)]
     @ [if ni_within_target (of_int NET_INCOME) g then NI_OK (ni_diff (of_int NET_INCOME) g)
        else NI_WARN (ni_diff (of_int NET_INCOME) g)]"

text \<open>
  The three loops read the rows in the order of the source, so the first exception of
  the source is the error returned; a run that raises returns no report.
\<close>

definition verify_financials :: "row list \<Rightarrow> row list \<Rightarrow> error + report_line list" where
  "verify_financials je_rows invoices =
     bindE (mapE read_je_amounts je_rows) (\<lambda>ls.
     bindE (mapE read_je_posting je_rows) (\<lambda>ps.
     bindE (mapE read_invoice invoices) (\<lambda>invs.
       Inr (report (je_totals ls) (project_invoices invs (gl_from_jes ps))))))"

section \<open>Totals of an entry, as the specification words them\<close>

text \<open>
  The sum of the debit amounts, and of the credit amounts, of the journal lines that
  carry a given entry identifier.
\<close>

definition entry_debits :: "je_amounts list \<Rightarrow> cell \<Rightarrow> real" where
  "entry_debits ls je = sum_list (map debit (filter (\<lambda>l. entry_number l = je) ls))"

definition entry_credits :: "je_amounts list \<Rightarrow> cell \<Rightarrow> real" where
  "entry_credits ls je = sum_list (map credit (filter (\<lambda>l. entry_number l = je) ls))"

section \<open>Well-formed rows\<close>

text \<open>
  A journal row is well formed when it has the columns \<open>debit\<close>, \<open>credit\<close>,
  \<open>entry_number\<close> and \<open>account_number\<close>, its amounts are empty or spell a number, and
  its account number spells an integer. An invoice row is well formed when it has the
  columns \<open>amount\<close>, \<open>status\<close> and \<open>invoice_type\<close>, its amount spells a number, its
  \<open>retainage_held\<close> is absent, empty or spells a number, and its \<open>gl_account\<close> is
  absent, empty or spells an integer.
\<close>

fun spells_number :: "cell \<Rightarrow> bool" where
  "spells_number (IntStr n) = True"
| "spells_number (DecStr v) = True"
| "spells_number (Text s) = False"

fun spells_integer :: "cell \<Rightarrow> bool" where
  "spells_integer (IntStr n) = True"
| "spells_integer (DecStr v) = False"
| "spells_integer (Text s) = False"

definition empty_or_number :: "cell \<Rightarrow> bool" where
  "empty_or_number c = (c = Text [] \<or> spells_number c)"

definition empty_or_integer :: "cell \<Rightarrow> bool" where
  "empty_or_integer c = (c = Text [] \<or> spells_integer c)"

definition wf_je_row :: "row \<Rightarrow> bool" where
  "wf_je_row r =
     ((case map_of r ''debit'' of None \<Rightarrow> False | Some c \<Rightarrow> empty_or_number c)
      \<and> (case map_of r ''credit'' of None \<Rightarrow> False | Some c \<Rightarrow> empty_or_number c)
      \<and> map_of r ''entry_number'' \<noteq> None
      \<and> (case map_of r ''account_number'' of None \<Rightarrow> False | Some c \<Rightarrow> spells_integer c))"

definition wf_invoice_row :: "row \<Rightarrow> bool" where
  "wf_invoice_row r =
     ((case map_of r ''amount'' of None \<Rightarrow> False | Some c \<Rightarrow> spells_number c)
      \<and> (case map_of r ''retainage_held'' of None \<Rightarrow> True | Some c \<Rightarrow> empty_or_number c)
      \<and> (case map_of r ''gl_account'' of None \<Rightarrow> True | Some c \<Rightarrow> empty_or_integer c)
      \<and> map_of r ''status'' \<noteq> None
      \<and> map_of r ''invoice_type'' \<noteq> None)"

section \<open>Helpers of part01\_constants\<close>

text \<open>
  \<^verbatim>\<open>round(x)\<close> is the nearest integer, a tie going to the even one; \<^verbatim>\<open>round(x, 2)\<close> and
  the format \<^verbatim>\<open>f"{x:.2f}"\<close> round the same way at the second decimal.
\<close>

definition py_round :: "real \<Rightarrow> int" where
  "py_round x =
     (let f = \<lfloor>x\<rfloor>; d = x - of_int f
      in if d < 1 / 2 then f else if d > 1 / 2 then f + 1 else if even f then f else f + 1)"




section \<open>Python lists, dictionaries and formatting used by part07\_financials\<close>







section \<open>generate\_journal\_entries (part07\_financials)\<close>















section \<open>generate\_invoices (part07\_financials)\<close>











section \<open>Predicates used in the proofs about the generators\<close>


text \<open>A computation that returns, with a result that satisfies \<open>P\<close>.\<close>

definition returns :: "('a \<Rightarrow> bool) \<Rightarrow> error + 'a \<Rightarrow> bool" where
  "returns P m = (case m of Inl e \<Rightarrow> False | Inr x \<Rightarrow> P x)"






section \<open>Binary64 arithmetic\<close>

text \<open>
  Whether a result of \<^verbatim>\<open>verify_financials\<close> depends on the order of its input is a
  question about the arithmetic of Python's \<^verbatim>\<open>float\<close>, which is IEEE 754 binary64 with
  rounding to nearest, ties to even: over the real numbers every sum is independent of
  its order, over binary64 it is not. The two loops whose order-independence is claimed,
  the balance checker and the invoice-to-ledger projector, are therefore embedded a
  second time below, over binary64.

  A \<open>double\<close> is a finite binary64 number, kept as the real number it denotes (the two
  zeros compare equal and are one value here), an infinity, or a NaN. \<open>scale\<close> brings a
  real number \<open>x = m * 2 ^ e\<close> into the form with \<open>2 ^ 52 \<le> \<bar>m\<bar> < 2 ^ 53\<close>, not going
  below the exponent \<open>- 1074\<close> of the subnormal numbers; \<open>fl x\<close> rounds the significand \<open>m\<close>
  to the nearest integer, a tie to the even one, and overflows to an infinity from
  \<open>2 ^ 1024\<close> on. It is what \<^verbatim>\<open>float("...")\<close> gives for a decimal string, and every
  arithmetic operation is the exact operation followed by \<open>fl\<close>.
\<close>

datatype double = Fin real | PInf | NInf | NaN

fun scale :: "nat \<Rightarrow> real \<Rightarrow> int \<Rightarrow> real \<times> int" where
  "scale 0 m e = (m, e)"
| "scale (Suc n) m e =
     (if 2 ^ 53 \<le> \<bar>m\<bar> then scale n (m / 2) (e + 1)
      else if \<bar>m\<bar> < 2 ^ 52 \<and> - 1074 < e then scale n (m * 2) (e - 1)
      else (m, e))"

definition fl :: "real \<Rightarrow> double" where
  "fl x = (case scale 2200 x 0 of (m, e) \<Rightarrow>
             (let r = of_int (py_round m) * 2 powi e
              in if 2 ^ 1024 \<le> \<bar>r\<bar> then (if 0 < x then PInf else NInf) else Fin r))"

text \<open>\<^verbatim>\<open>a + b\<close>, \<^verbatim>\<open>- a\<close>, \<^verbatim>\<open>a - b\<close>, \<^verbatim>\<open>abs(a)\<close> and \<^verbatim>\<open>a > b\<close> on floats.\<close>

fun fadd :: "double \<Rightarrow> double \<Rightarrow> double" where
  "fadd (Fin x) (Fin y) = fl (x + y)"
| "fadd NaN b = NaN"
| "fadd a NaN = NaN"
| "fadd PInf NInf = NaN"
| "fadd NInf PInf = NaN"
| "fadd PInf b = PInf"
| "fadd a PInf = PInf"
| "fadd NInf b = NInf"
| "fadd a NInf = NInf"

fun fneg :: "double \<Rightarrow> double" where
  "fneg (Fin x) = Fin (- x)"
| "fneg PInf = NInf"
| "fneg NInf = PInf"
| "fneg NaN = NaN"

definition fsub :: "double \<Rightarrow> double \<Rightarrow> double" where
  "fsub a b = fadd a (fneg b)"

fun fabs :: "double \<Rightarrow> double" where
  "fabs (Fin x) = Fin \<bar>x\<bar>"
| "fabs PInf = PInf"
| "fabs NInf = PInf"
| "fabs NaN = NaN"

fun fgt :: "double \<Rightarrow> double \<Rightarrow> bool" where
  "fgt (Fin x) (Fin y) = (y < x)"
| "fgt NaN b = False"
| "fgt a NaN = False"
| "fgt a PInf = False"
| "fgt NInf b = False"
| "fgt PInf b = True"
| "fgt a NInf = True"

section \<open>The balance checker and the projector over binary64\<close>

text \<open>
  The same lines of the source as above, with every \<^verbatim>\<open>float\<close> a \<open>double\<close>. The \<^verbatim>\<open>0\<close> of
  \<^verbatim>\<open>float(r[k]) if r[k] else 0\<close> is an \<^verbatim>\<open>int\<close> that the next addition or comparison
  converts to \<^verbatim>\<open>0.0\<close>.
\<close>

fun py_float64 :: "cell \<Rightarrow> error + double" where
  "py_float64 (IntStr n) = Inr (fl (of_int n))"
| "py_float64 (DecStr v) = Inr (fl v)"
| "py_float64 (Text s) = Inl ValueError"

record je_amounts64 =
  entry_number64 :: cell
  debit64 :: double
  credit64 :: double

record invoice64 =
  amt64 :: double
  ret64 :: double
  gl64 :: "int option"
  is_paid64 :: bool
  invoice_type64 :: cell

definition float_or_0_64 :: "row \<Rightarrow> string \<Rightarrow> error + double" where
  "float_or_0_64 r k =
     bindE (getitem r k) (\<lambda>c. if truthy c then bindE (getitem r k) py_float64 else Inr (Fin 0))"

definition float_or_0_get64 :: "row \<Rightarrow> string \<Rightarrow> error + double" where
  "float_or_0_get64 r k =
     (case get r k of
        None \<Rightarrow> Inr (Fin 0)
      | Some c \<Rightarrow> if truthy c then bindE (getitem r k) py_float64 else Inr (Fin 0))"

definition read_je_amounts64 :: "row \<Rightarrow> error + je_amounts64" where
  "read_je_amounts64 r =
     bindE (float_or_0_64 r ''debit'') (\<lambda>d.
     bindE (float_or_0_64 r ''credit'') (\<lambda>c.
     bindE (getitem r ''entry_number'') (\<lambda>je.
       Inr \<lparr>entry_number64 = je, debit64 = d, credit64 = c\<rparr>)))"

definition read_invoice64 :: "row \<Rightarrow> error + invoice64" where
  "read_invoice64 iv =
     bindE (bindE (getitem iv ''amount'') py_float64) (\<lambda>a.
     bindE (float_or_0_get64 iv ''retainage_held'') (\<lambda>rt.
     bindE (int_or_None_get iv ''gl_account'') (\<lambda>g.
     bindE (getitem iv ''status'') (\<lambda>st.
     bindE (getitem iv ''invoice_type'') (\<lambda>ty.
       Inr \<lparr>amt64 = a, ret64 = rt, gl64 = g, is_paid64 = (st = Text ''paid''),
            invoice_type64 = ty\<rparr>)))))"

text \<open>Lines 39 to 50.\<close>

type_synonym je_totals64 = "(cell \<times> double \<times> double) list"

definition totals_of64 :: "je_totals64 \<Rightarrow> cell \<Rightarrow> double \<times> double" where
  "totals_of64 t je = (case map_of t je of None \<Rightarrow> (Fin 0, Fin 0) | Some p \<Rightarrow> p)"

definition je_totals_add64 :: "je_amounts64 \<Rightarrow> je_totals64 \<Rightarrow> je_totals64" where
  "je_totals_add64 l t =
     (let t1 = AList.update (entry_number64 l)
                 (fadd (fst (totals_of64 t (entry_number64 l))) (debit64 l),
                  snd (totals_of64 t (entry_number64 l))) t
      in AList.update (entry_number64 l)
                 (fst (totals_of64 t1 (entry_number64 l)),
                  fadd (snd (totals_of64 t1 (entry_number64 l))) (credit64 l)) t1)"

definition je_totals64 :: "je_amounts64 list \<Rightarrow> je_totals64" where
  "je_totals64 ls = fold je_totals_add64 ls []"

definition unbalanced64 :: "je_totals64 \<Rightarrow> nat" where
  "unbalanced64 t =
     fold (\<lambda>(je, d, c) n. if fgt (fabs (fsub d c)) (fl 0.02) then n + 1 else n) t 0"

text \<open>Lines 73 to 99.\<close>

type_synonym gl_balances64 = "(int \<times> double) list"

definition lookup64 :: "gl_balances64 \<Rightarrow> int \<Rightarrow> double" where
  "lookup64 d k = (case map_of d k of None \<Rightarrow> Fin 0 | Some v \<Rightarrow> v)"

definition gl_add64 :: "int \<Rightarrow> double \<Rightarrow> gl_balances64 \<Rightarrow> gl_balances64" where
  "gl_add64 k x d = AList.update k (fadd (lookup64 d k) x) d"

definition gl_sub64 :: "int \<Rightarrow> double \<Rightarrow> gl_balances64 \<Rightarrow> gl_balances64" where
  "gl_sub64 k x d = AList.update k (fsub (lookup64 d k) x) d"

definition project_invoice64 :: "invoice64 \<Rightarrow> gl_balances64 \<Rightarrow> gl_balances64" where
  "project_invoice64 iv g =
     (if invoice_type64 iv = Text ''receivable'' then
        (let net_ar = fsub (amt64 iv) (ret64 iv);
             g1 = gl_add64 1010 net_ar g;
             g2 = (if fgt (ret64 iv) (Fin 0) then gl_add64 1020 (ret64 iv) g1 else g1);
             g3 = (if gl_truthy (gl64 iv) then gl_sub64 (the (gl64 iv)) (amt64 iv) g2 else g2)
         in if is_paid64 iv then gl_sub64 1010 net_ar (gl_add64 1000 net_ar g3) else g3)
      else if invoice_type64 iv = Text ''payable'' then
        (let net_ap = fsub (amt64 iv) (ret64 iv);
             g1 = (if gl_truthy (gl64 iv) then gl_add64 (the (gl64 iv)) (amt64 iv) g else g);
             g2 = gl_sub64 2000 net_ap g1;
             g3 = (if fgt (ret64 iv) (Fin 0) then gl_sub64 2010 (ret64 iv) g2 else g2)
         in if is_paid64 iv then gl_sub64 1000 net_ap (gl_add64 2000 net_ap g3) else g3)
      else g)"

definition project_invoices64 :: "invoice64 list \<Rightarrow> gl_balances64 \<Rightarrow> gl_balances64" where
  "project_invoices64 invs g = fold project_invoice64 invs g"

text \<open>
  The totals of an entry as the loop accumulates them: the binary64 sum of its debits,
  and of its credits, from \<^verbatim>\<open>0.0\<close> in the order of the lines.
\<close>

definition fsum :: "double list \<Rightarrow> double" where
  "fsum xs = foldl fadd (Fin 0) xs"

definition entry_debits64 :: "je_amounts64 list \<Rightarrow> cell \<Rightarrow> double" where
  "entry_debits64 ls je = fsum (map debit64 (filter (\<lambda>l. entry_number64 l = je) ls))"

definition entry_credits64 :: "je_amounts64 list \<Rightarrow> cell \<Rightarrow> double" where
  "entry_credits64 ls je = fsum (map credit64 (filter (\<lambda>l. entry_number64 l = je) ls))"

text \<open>
  Input on which no addition rounds: every amount is a whole number, and the absolute
  values of all amounts that can meet in a sum stay below \<open>2 ^ 53\<close>. An invoice posts
  its amounts at most four times over.
\<close>

fun is_whole :: "double \<Rightarrow> bool" where
  "is_whole (Fin x) = (x = of_int \<lfloor>x\<rfloor>)"
| "is_whole PInf = False"
| "is_whole NInf = False"
| "is_whole NaN = False"

fun mag :: "double \<Rightarrow> real" where
  "mag (Fin x) = \<bar>x\<bar>"
| "mag PInf = 0"
| "mag NInf = 0"
| "mag NaN = 0"

definition whole_lines :: "je_amounts64 list \<Rightarrow> bool" where
  "whole_lines ls =
     (list_all (\<lambda>l. is_whole (debit64 l) \<and> is_whole (credit64 l)) ls
      \<and> (\<Sum>l\<leftarrow>ls. mag (debit64 l) + mag (credit64 l)) < 2 ^ 53)"

definition whole_invoices :: "invoice64 list \<Rightarrow> gl_balances64 \<Rightarrow> bool" where
  "whole_invoices invs g =
     (list_all (\<lambda>iv. is_whole (amt64 iv) \<and> is_whole (ret64 iv)) invs
      \<and> list_all (\<lambda>(k, v). is_whole v) g
      \<and> (\<Sum>(k, v)\<leftarrow>g. mag v) + (\<Sum>iv\<leftarrow>invs. 4 * (mag (amt64 iv) + mag (ret64 iv))) < 2 ^ 53)"

text \<open>
  The real number of a finite double. The amounts an invoice posts, account by account
  in the order of lines 81 to 99: \<^verbatim>\<open>gl_balances[k] -= x\<close> rounds as \<^verbatim>\<open>gl_balances[k] += -x\<close>
  does, so the projection of an invoice is the fold of \<open>post64\<close> over its postings.
\<close>

fun val :: "double \<Rightarrow> real" where
  "val (Fin x) = x"
| "val PInf = 0"
| "val NInf = 0"
| "val NaN = 0"

definition postings64 :: "invoice64 \<Rightarrow> (int \<times> double) list" where
  "postings64 iv =
     (if invoice_type64 iv = Text ''receivable'' then
        [(1010, fsub (amt64 iv) (ret64 iv))]
        @ (if fgt (ret64 iv) (Fin 0) then [(1020, ret64 iv)] else [])
        @ (if gl_truthy (gl64 iv) then [(the (gl64 iv), fneg (amt64 iv))] else [])
        @ (if is_paid64 iv
           then [(1000, fsub (amt64 iv) (ret64 iv)), (1010, fneg (fsub (amt64 iv) (ret64 iv)))]
           else [])
      else if invoice_type64 iv = Text ''payable'' then
        (if gl_truthy (gl64 iv) then [(the (gl64 iv), amt64 iv)] else [])
        @ [(2000, fneg (fsub (amt64 iv) (ret64 iv)))]
        @ (if fgt (ret64 iv) (Fin 0) then [(2010, fneg (ret64 iv))] else [])
        @ (if is_paid64 iv
           then [(2000, fsub (amt64 iv) (ret64 iv)), (1000, fneg (fsub (amt64 iv) (ret64 iv)))]
           else [])
      else [])"

definition post64 :: "int \<times> double \<Rightarrow> gl_balances64 \<Rightarrow> gl_balances64" where
  "post64 p g = gl_add64 (fst p) (snd p) g"

section \<open>Dictionaries: balances, keys, distinctness\<close>


lemma lookup0_Nil: "lookup0 [] a = 0"
  by (simp add: lookup0_def)

lemma lookup0_update: "lookup0 (AList.update k v d) a = (if a = k then v else lookup0 d a)"
  by (simp add: lookup0_def update_conv')

lemma lookup0_gl_add: "lookup0 (gl_add k x d) a = lookup0 d a + (if a = k then x else 0)"
  by (simp add: gl_add_def lookup0_update)

lemma lookup0_gl_sub: "lookup0 (gl_sub k x d) a = lookup0 d a - (if a = k then x else 0)"
  by (simp add: gl_sub_def lookup0_update)

lemma keys_gl_add: "fst ` set (gl_add k x d) = insert k (fst ` set d)"
  by (simp add: gl_add_def dom_update)

lemma keys_gl_sub: "fst ` set (gl_sub k x d) = insert k (fst ` set d)"
  by (simp add: gl_sub_def dom_update)

lemma distinct_gl_add: "distinct (map fst d) \<Longrightarrow> distinct (map fst (gl_add k x d))"
  by (simp add: gl_add_def distinct_update)

lemma distinct_gl_sub: "distinct (map fst d) \<Longrightarrow> distinct (map fst (gl_sub k x d))"
  by (simp add: gl_sub_def distinct_update)

lemma map_of_eqI:
  assumes "fst ` set d = fst ` set d'" and "\<And>a. lookup0 d a = lookup0 d' a"
  shows "map_of d = map_of d'"
proof
  fix a
  show "map_of d a = map_of d' a"
  proof (cases "a \<in> fst ` set d")
    case False
    then have "map_of d a = None" by (simp add: map_of_eq_None_iff)
    moreover from False assms(1) have "map_of d' a = None" by (simp add: map_of_eq_None_iff)
    ultimately show ?thesis by simp
  next
    case True
    then obtain v where v: "map_of d a = Some v"
      by (metis map_of_eq_None_iff not_Some_eq)
    from True assms(1) obtain v' where v': "map_of d' a = Some v'"
      by (metis map_of_eq_None_iff not_Some_eq)
    from assms(2) [of a] v v' show ?thesis by (simp add: lookup0_def)
  qed
qed

section \<open>The projector\<close>

lemma project_invoice_lookup0:
  "lookup0 (project_invoice iv g) a = lookup0 g a + lookup0 (project_invoice iv []) a"
  by (simp add: project_invoice_def Let_def lookup0_gl_add lookup0_gl_sub lookup0_Nil)

lemma project_invoice_keys:
  "fst ` set (project_invoice iv g) = fst ` set g \<union> fst ` set (project_invoice iv [])"
  by (auto simp add: project_invoice_def Let_def keys_gl_add keys_gl_sub)

lemma project_invoice_distinct:
  "distinct (map fst g) \<Longrightarrow> distinct (map fst (project_invoice iv g))"
  by (simp add: project_invoice_def Let_def distinct_gl_add distinct_gl_sub)

lemma project_invoices_lookup0:
  "lookup0 (project_invoices invs g) a =
     lookup0 g a + (\<Sum>iv\<leftarrow>invs. lookup0 (project_invoice iv []) a)"
  unfolding project_invoices_def
proof (induction invs arbitrary: g)
  case Nil
  show ?case by simp
next
  case (Cons iv invs)
  show ?case
    by (simp add: Cons.IH [of "project_invoice iv g"] project_invoice_lookup0 [of iv g])
qed

lemma project_invoices_keys:
  "fst ` set (project_invoices invs g) =
     fst ` set g \<union> (\<Union>iv\<in>set invs. fst ` set (project_invoice iv []))"
  unfolding project_invoices_def
proof (induction invs arbitrary: g)
  case Nil
  show ?case by simp
next
  case (Cons iv invs)
  show ?case
    using project_invoice_keys [of iv g]
    by (simp add: Cons.IH [of "project_invoice iv g"] Un_assoc)
qed

lemma project_invoices_distinct:
  "distinct (map fst g) \<Longrightarrow> distinct (map fst (project_invoices invs g))"
  unfolding project_invoices_def
  by (induction invs arbitrary: g) (simp_all add: project_invoice_distinct)

lemma sum_list_mset_cong:
  fixes f :: "'a \<Rightarrow> real"
  assumes "mset xs = mset ys"
  shows "(\<Sum>x\<leftarrow>xs. f x) = (\<Sum>x\<leftarrow>ys. f x)"
proof -
  have "(\<Sum>x\<leftarrow>xs. f x) = sum_mset (image_mset f (mset xs))"
    by (metis mset_map sum_mset_sum_list)
  also have "\<dots> = sum_mset (image_mset f (mset ys))"
    by (simp add: assms)
  also have "\<dots> = (\<Sum>x\<leftarrow>ys. f x)"
    by (metis mset_map sum_mset_sum_list)
  finally show ?thesis .
qed

text \<open>
  The projection of a receivable, account by account, as lines 81 to 88 compute it. For
  every account \<open>a\<close>, the balance of \<open>a\<close> after the projection is the balance before, plus
  \<open>net = amount - retainage_held\<close> if \<open>a\<close> is 1010, plus \<open>retainage_held\<close> if \<open>a\<close> is 1020 and
  \<open>retainage_held > 0\<close>, minus \<open>amount\<close> if \<open>a\<close> is the invoice's \<open>gl_account\<close> and the test
  \<^verbatim>\<open>if gl:\<close> of line 84 succeeds, plus \<open>net\<close> if \<open>a\<close> is 1000 and the invoice is paid, minus
  \<open>net\<close> if \<open>a\<close> is 1010 and the invoice is paid. The test succeeds for every account
  number but 0.
\<close>
theorem receivable_projection:
  assumes "invoice_type iv = Text ''receivable''"
  shows "lookup0 (project_invoice iv g) a =
           lookup0 g a
           + (if a = 1010 then amt iv - ret iv else 0)
           + (if a = 1020 \<and> ret iv > 0 then ret iv else 0)
           - (if gl iv = Some a \<and> a \<noteq> 0 then amt iv else 0)
           + (if a = 1000 \<and> is_paid iv then amt iv - ret iv else 0)
           - (if a = 1010 \<and> is_paid iv then amt iv - ret iv else 0)"
  using assms
  by (cases "gl iv")
     (simp_all add: project_invoice_def Let_def gl_truthy_def lookup0_gl_add lookup0_gl_sub)

text \<open>The receivable of the specification: amount 100, retainage 5, paid, account 4000.\<close>

theorem receivable_projection_witness:
  "invoice_type \<lparr>amt = 100, ret = 5, gl = Some 4000, is_paid = True,
      invoice_type = Text ''receivable''\<rparr> = Text ''receivable''
   \<and> lookup0 (project_invoice \<lparr>amt = 100, ret = 5, gl = Some 4000, is_paid = True,
        invoice_type = Text ''receivable''\<rparr> []) 1010 = 0
   \<and> lookup0 (project_invoice \<lparr>amt = 100, ret = 5, gl = Some 4000, is_paid = True,
        invoice_type = Text ''receivable''\<rparr> []) 1020 = 5
   \<and> lookup0 (project_invoice \<lparr>amt = 100, ret = 5, gl = Some 4000, is_paid = True,
        invoice_type = Text ''receivable''\<rparr> []) 4000 = - 100
   \<and> lookup0 (project_invoice \<lparr>amt = 100, ret = 5, gl = Some 4000, is_paid = True,
        invoice_type = Text ''receivable''\<rparr> []) 1000 = 95"
  using receivable_projection [of "\<lparr>amt = 100, ret = 5, gl = Some 4000, is_paid = True,
          invoice_type = Text ''receivable''\<rparr>" "[]" 1010]
        receivable_projection [of "\<lparr>amt = 100, ret = 5, gl = Some 4000, is_paid = True,
          invoice_type = Text ''receivable''\<rparr>" "[]" 1020]
        receivable_projection [of "\<lparr>amt = 100, ret = 5, gl = Some 4000, is_paid = True,
          invoice_type = Text ''receivable''\<rparr>" "[]" 4000]
        receivable_projection [of "\<lparr>amt = 100, ret = 5, gl = Some 4000, is_paid = True,
          invoice_type = Text ''receivable''\<rparr>" "[]" 1000]
  by (simp add: lookup0_Nil)

text \<open>
  Claim C1. A receivable invoice is to change the accumulator as follows, with
  \<open>net = amount - retainage_held\<close>: account 1010 increases by \<open>net\<close>; if
  \<open>retainage_held > 0\<close>, account 1020 increases by \<open>retainage_held\<close>; if \<open>gl_account\<close> is
  present, account \<open>gl_account\<close> decreases by \<open>amount\<close>; and if the status is \<^verbatim>\<open>paid\<close>,
  account 1000 increases by \<open>net\<close> and account 1010 decreases by \<open>net\<close>. The code does so,
  by the theorem above, except when \<open>gl_account\<close> is the account number 0. On the
  receivable row below the column \<open>gl_account\<close> is present and spells \<^verbatim>\<open>"0"\<close>; line 76
  reads it as the account number 0, the test \<^verbatim>\<open>if gl:\<close> of line 84 fails on the integer 0,
  and the balance of account 0 stays 0 where it is to decrease by the amount 100.
\<close>

theorem receivable_gl_zero_counterexample:
  "read_invoice [(''invoice_type'', Text ''receivable''), (''amount'', IntStr 100),
      (''retainage_held'', IntStr 0), (''gl_account'', IntStr 0), (''status'', Text ''pending'')]
     = Inr \<lparr>amt = 100, ret = 0, gl = Some 0, is_paid = False,
            invoice_type = Text ''receivable''\<rparr>
   \<and> lookup0 (project_invoice \<lparr>amt = 100, ret = 0, gl = Some 0, is_paid = False,
        invoice_type = Text ''receivable''\<rparr> []) 0 = 0
   \<and> lookup0 (project_invoice \<lparr>amt = 100, ret = 0, gl = Some 0, is_paid = False,
        invoice_type = Text ''receivable''\<rparr> []) 0 \<noteq> lookup0 [] 0 - 100"
  by (simp add: read_invoice_def bindE_def getitem_def get_def float_or_0_get_def
      int_or_None_get_def project_invoice_def Let_def gl_truthy_def lookup0_gl_add
      lookup0_gl_sub lookup0_Nil)

text \<open>
  The projection of a payable, account by account, as lines 90 to 99 compute it. For
  every account \<open>a\<close>, the balance of \<open>a\<close> after the projection is the balance before, plus
  \<open>amount\<close> if \<open>a\<close> is the invoice's \<open>gl_account\<close> and the test \<^verbatim>\<open>if gl:\<close> of line 92
  succeeds, minus \<open>net = amount - retainage_held\<close> if \<open>a\<close> is 2000, minus \<open>retainage_held\<close>
  if \<open>a\<close> is 2010 and \<open>retainage_held > 0\<close>, plus \<open>net\<close> if \<open>a\<close> is 2000 and the invoice is
  paid, minus \<open>net\<close> if \<open>a\<close> is 1000 and the invoice is paid.
\<close>
theorem payable_projection:
  assumes "invoice_type iv = Text ''payable''"
  shows "lookup0 (project_invoice iv g) a =
           lookup0 g a
           + (if gl iv = Some a \<and> a \<noteq> 0 then amt iv else 0)
           - (if a = 2000 then amt iv - ret iv else 0)
           - (if a = 2010 \<and> ret iv > 0 then ret iv else 0)
           + (if a = 2000 \<and> is_paid iv then amt iv - ret iv else 0)
           - (if a = 1000 \<and> is_paid iv then amt iv - ret iv else 0)"
  using assms
  by (cases "gl iv")
     (simp_all add: project_invoice_def Let_def gl_truthy_def lookup0_gl_add lookup0_gl_sub)

text \<open>The payable of the specification: amount 200, retainage 10, approved, account 5000.\<close>

theorem payable_projection_witness:
  "invoice_type \<lparr>amt = 200, ret = 10, gl = Some 5000, is_paid = False,
      invoice_type = Text ''payable''\<rparr> = Text ''payable''
   \<and> lookup0 (project_invoice \<lparr>amt = 200, ret = 10, gl = Some 5000, is_paid = False,
        invoice_type = Text ''payable''\<rparr> []) 5000 = 200
   \<and> lookup0 (project_invoice \<lparr>amt = 200, ret = 10, gl = Some 5000, is_paid = False,
        invoice_type = Text ''payable''\<rparr> []) 2000 = - 190
   \<and> lookup0 (project_invoice \<lparr>amt = 200, ret = 10, gl = Some 5000, is_paid = False,
        invoice_type = Text ''payable''\<rparr> []) 2010 = - 10
   \<and> lookup0 (project_invoice \<lparr>amt = 200, ret = 10, gl = Some 5000, is_paid = False,
        invoice_type = Text ''payable''\<rparr> []) 1000 = 0"
  using payable_projection [of "\<lparr>amt = 200, ret = 10, gl = Some 5000, is_paid = False,
          invoice_type = Text ''payable''\<rparr>" "[]" 5000]
        payable_projection [of "\<lparr>amt = 200, ret = 10, gl = Some 5000, is_paid = False,
          invoice_type = Text ''payable''\<rparr>" "[]" 2000]
        payable_projection [of "\<lparr>amt = 200, ret = 10, gl = Some 5000, is_paid = False,
          invoice_type = Text ''payable''\<rparr>" "[]" 2010]
        payable_projection [of "\<lparr>amt = 200, ret = 10, gl = Some 5000, is_paid = False,
          invoice_type = Text ''payable''\<rparr>" "[]" 1000]
  by (simp add: lookup0_Nil)

text \<open>
  Claim C2. A payable invoice is to change the accumulator as follows, with
  \<open>net = amount - retainage_held\<close>: if \<open>gl_account\<close> is present, account \<open>gl_account\<close>
  increases by \<open>amount\<close>; account 2000 decreases by \<open>net\<close>; if \<open>retainage_held > 0\<close>,
  account 2010 decreases by \<open>retainage_held\<close>; and if the status is \<^verbatim>\<open>paid\<close>, account 2000
  increases by \<open>net\<close> and account 1000 decreases by \<open>net\<close>. The code does so, by the
  theorem above, except when \<open>gl_account\<close> is the account number 0. On the payable row
  below the column \<open>gl_account\<close> is present and spells \<^verbatim>\<open>"0"\<close>; line 76 reads it as the
  account number 0, the test \<^verbatim>\<open>if gl:\<close> of line 92 fails on the integer 0, and the balance
  of account 0 stays 0 where it is to increase by the amount 200.
\<close>

theorem payable_gl_zero_counterexample:
  "read_invoice [(''invoice_type'', Text ''payable''), (''amount'', IntStr 200),
      (''retainage_held'', IntStr 0), (''gl_account'', IntStr 0), (''status'', Text ''approved'')]
     = Inr \<lparr>amt = 200, ret = 0, gl = Some 0, is_paid = False,
            invoice_type = Text ''payable''\<rparr>
   \<and> lookup0 (project_invoice \<lparr>amt = 200, ret = 0, gl = Some 0, is_paid = False,
        invoice_type = Text ''payable''\<rparr> []) 0 = 0
   \<and> lookup0 (project_invoice \<lparr>amt = 200, ret = 0, gl = Some 0, is_paid = False,
        invoice_type = Text ''payable''\<rparr> []) 0 \<noteq> lookup0 [] 0 + 200"
  by (simp add: read_invoice_def bindE_def getitem_def get_def float_or_0_get_def
      int_or_None_get_def project_invoice_def Let_def gl_truthy_def lookup0_gl_add
      lookup0_gl_sub lookup0_Nil)




section \<open>The balance checker\<close>

lemma totals_of_update:
  "totals_of (AList.update k v t) a = (if a = k then v else totals_of t a)"
  by (simp add: totals_of_def update_conv')

lemma je_totals_add_totals:
  "totals_of (je_totals_add l t) k =
     (if k = entry_number l
      then (fst (totals_of t k) + debit l, snd (totals_of t k) + credit l)
      else totals_of t k)"
  by (simp add: je_totals_add_def Let_def totals_of_update)

lemma je_totals_add_keys:
  "fst ` set (je_totals_add l t) = insert (entry_number l) (fst ` set t)"
  by (simp add: je_totals_add_def Let_def dom_update)


lemma fold_je_totals_add_totals:
  "totals_of (fold je_totals_add ls t) k =
     (fst (totals_of t k) + entry_debits ls k, snd (totals_of t k) + entry_credits ls k)"
proof (induction ls arbitrary: t)
  case Nil
  show ?case by (simp add: entry_debits_def entry_credits_def)
next
  case (Cons l ls)
  show ?case
    by (simp add: Cons.IH [of "je_totals_add l t"] je_totals_add_totals
        entry_debits_def entry_credits_def)
qed

lemma fold_je_totals_add_keys:
  "fst ` set (fold je_totals_add ls t) = fst ` set t \<union> entry_number ` set ls"
  by (induction ls arbitrary: t) (auto simp add: je_totals_add_keys)


lemma je_totals_keys: "fst ` set (je_totals ls) = entry_number ` set ls"
  by (simp add: je_totals_def fold_je_totals_add_keys)


lemma je_totals_totals:
  "totals_of (je_totals ls) k = (entry_debits ls k, entry_credits ls k)"
  unfolding je_totals_def fold_je_totals_add_totals
  by (simp add: totals_of_def)

lemma je_totals_map_of:
  "map_of (je_totals ls) k =
     (if k \<in> entry_number ` set ls then Some (entry_debits ls k, entry_credits ls k) else None)"
proof (cases "k \<in> entry_number ` set ls")
  case False
  then have "k \<notin> fst ` set (je_totals ls)" by (simp add: je_totals_keys)
  then have "map_of (je_totals ls) k = None" by (simp add: map_of_eq_None_iff)
  with False show ?thesis by simp
next
  case True
  then have "k \<in> fst ` set (je_totals ls)" by (simp add: je_totals_keys)
  then obtain p where p: "map_of (je_totals ls) k = Some p"
    by (metis map_of_eq_None_iff not_Some_eq)
  with je_totals_totals [of ls k] have "p = (entry_debits ls k, entry_credits ls k)"
    by (simp add: totals_of_def)
  with p True show ?thesis by simp
qed





section \<open>The trial balance report\<close>














section \<open>The income statement\<close>











section \<open>verify\_financials never raises on well-formed rows\<close>

lemma mapE_succeeds:
  assumes "\<And>x. x \<in> set xs \<Longrightarrow> \<exists>y. f x = Inr y"
  shows "\<exists>ys. mapE f xs = Inr ys"
  using assms
proof (induction xs)
  case Nil
  show ?case by simp
next
  case (Cons x xs)
  from Cons.prems obtain y where y: "f x = Inr y" by fastforce
  from Cons.IH Cons.prems obtain ys where ys: "mapE f xs = Inr ys" by fastforce
  from y ys show ?case by (simp add: bindE_def)
qed

lemma float_or_0_succeeds:
  assumes "map_of r k = Some c" and "empty_or_number c"
  shows "\<exists>v. float_or_0 r k = Inr v"
  using assms
  by (cases c) (auto simp add: float_or_0_def getitem_def bindE_def empty_or_number_def)

lemma float_or_0_get_succeeds:
  assumes "case map_of r k of None \<Rightarrow> True | Some c \<Rightarrow> empty_or_number c"
  shows "\<exists>v. float_or_0_get r k = Inr v"
proof (cases "map_of r k")
  case None
  then show ?thesis by (simp add: float_or_0_get_def get_def)
next
  case (Some c)
  with assms show ?thesis
    by (cases c)
       (auto simp add: float_or_0_get_def get_def getitem_def bindE_def empty_or_number_def)
qed

lemma int_or_None_get_succeeds:
  assumes "case map_of r k of None \<Rightarrow> True | Some c \<Rightarrow> empty_or_integer c"
  shows "\<exists>v. int_or_None_get r k = Inr v"
proof (cases "map_of r k")
  case None
  then show ?thesis by (simp add: int_or_None_get_def get_def)
next
  case (Some c)
  with assms show ?thesis
    by (cases c)
       (auto simp add: int_or_None_get_def get_def getitem_def bindE_def empty_or_integer_def)
qed

lemma read_je_amounts_succeeds:
  assumes "wf_je_row r"
  shows "\<exists>l. read_je_amounts r = Inr l"
proof -
  from assms obtain cd cc ce where
    d: "map_of r ''debit'' = Some cd" "empty_or_number cd" and
    c: "map_of r ''credit'' = Some cc" "empty_or_number cc" and
    e: "map_of r ''entry_number'' = Some ce"
    by (auto simp add: wf_je_row_def split: option.splits)
  from float_or_0_succeeds [OF d] obtain vd where vd: "float_or_0 r ''debit'' = Inr vd" ..
  from float_or_0_succeeds [OF c] obtain vc where vc: "float_or_0 r ''credit'' = Inr vc" ..
  from vd vc e show ?thesis
    by (simp add: read_je_amounts_def bindE_def getitem_def)
qed

lemma read_je_posting_succeeds:
  assumes "wf_je_row r"
  shows "\<exists>p. read_je_posting r = Inr p"
proof -
  from assms obtain cd cc ca where
    d: "map_of r ''debit'' = Some cd" "empty_or_number cd" and
    c: "map_of r ''credit'' = Some cc" "empty_or_number cc" and
    a: "map_of r ''account_number'' = Some ca" "spells_integer ca"
    by (auto simp add: wf_je_row_def split: option.splits)
  from float_or_0_succeeds [OF d] obtain vd where vd: "float_or_0 r ''debit'' = Inr vd" ..
  from float_or_0_succeeds [OF c] obtain vc where vc: "float_or_0 r ''credit'' = Inr vc" ..
  from a obtain n where "ca = IntStr n" by (cases ca) auto
  with vd vc a show ?thesis
    by (simp add: read_je_posting_def bindE_def getitem_def)
qed

lemma read_invoice_succeeds:
  assumes "wf_invoice_row r"
  shows "\<exists>i. read_invoice r = Inr i"
proof -
  from assms obtain ca cs ct where
    a: "map_of r ''amount'' = Some ca" "spells_number ca" and
    rt: "case map_of r ''retainage_held'' of None \<Rightarrow> True | Some c \<Rightarrow> empty_or_number c" and
    g: "case map_of r ''gl_account'' of None \<Rightarrow> True | Some c \<Rightarrow> empty_or_integer c" and
    s: "map_of r ''status'' = Some cs" and
    t: "map_of r ''invoice_type'' = Some ct"
    by (auto simp add: wf_invoice_row_def split: option.splits)
  from a obtain va where va: "py_float ca = Inr va" by (cases ca) auto
  from float_or_0_get_succeeds [OF rt]
  obtain vr where vr: "float_or_0_get r ''retainage_held'' = Inr vr" ..
  from int_or_None_get_succeeds [OF g]
  obtain vg where vg: "int_or_None_get r ''gl_account'' = Inr vg" ..
  from a va vr vg s t show ?thesis
    by (simp add: read_invoice_def bindE_def getitem_def)
qed

lemma report_verdict_lines:
  "(if unbalanced t = 0 then JE_OK (length t) else JE_FAIL (unbalanced t)) \<in> set (report t g)"
  "(if tb_balanced g then TB_OK else TB_WARN (tb_diff g)) \<in> set (report t g)"
  "(if ni_within_target (of_int NET_INCOME) g then NI_OK (ni_diff (of_int NET_INCOME) g)
    else NI_WARN (ni_diff (of_int NET_INCOME) g)) \<in> set (report t g)"
  unfolding report_def by (simp_all only: set_append set_simps Un_iff insert_iff simp_thms)

text \<open>
  Claim C9. For well-formed journal rows and invoice rows \<open>verify_financials\<close> returns a
  report and no error, whatever the rows hold: the three read loops succeed, and when
  there are unbalanced entries, when the trial balance is off by 1.00 or more, or when
  net income is 100000 or more off the target, the report carries the line that says
  so (\<open>JE_FAIL\<close>, \<open>TB_WARN\<close>, \<open>NI_WARN\<close>). Every loop of the function is a fold over
  a finite list, so the function terminates.
\<close>

theorem verify_financials_never_raises:
  assumes "list_all wf_je_row je_rows" and "list_all wf_invoice_row invoices"
  shows "\<exists>ls ps invs.
           mapE read_je_amounts je_rows = Inr ls
         \<and> mapE read_je_posting je_rows = Inr ps
         \<and> mapE read_invoice invoices = Inr invs
         \<and> verify_financials je_rows invoices
             = Inr (report (je_totals ls) (project_invoices invs (gl_from_jes ps)))
         \<and> (unbalanced (je_totals ls) \<noteq> 0 \<longrightarrow>
              JE_FAIL (unbalanced (je_totals ls))
                \<in> set (report (je_totals ls) (project_invoices invs (gl_from_jes ps))))
         \<and> (\<not> tb_balanced (project_invoices invs (gl_from_jes ps)) \<longrightarrow>
              TB_WARN (tb_diff (project_invoices invs (gl_from_jes ps)))
                \<in> set (report (je_totals ls) (project_invoices invs (gl_from_jes ps))))
         \<and> (\<not> ni_within_target (of_int NET_INCOME) (project_invoices invs (gl_from_jes ps)) \<longrightarrow>
              NI_WARN (ni_diff (of_int NET_INCOME) (project_invoices invs (gl_from_jes ps)))
                \<in> set (report (je_totals ls) (project_invoices invs (gl_from_jes ps))))"
proof -
  from assms(1) have wj: "\<And>r. r \<in> set je_rows \<Longrightarrow> wf_je_row r"
    by (simp add: list_all_iff)
  from assms(2) have wi: "\<And>r. r \<in> set invoices \<Longrightarrow> wf_invoice_row r"
    by (simp add: list_all_iff)
  obtain ls where ls: "mapE read_je_amounts je_rows = Inr ls"
    using mapE_succeeds [of je_rows read_je_amounts] read_je_amounts_succeeds wj by blast
  obtain ps where ps: "mapE read_je_posting je_rows = Inr ps"
    using mapE_succeeds [of je_rows read_je_posting] read_je_posting_succeeds wj by blast
  obtain invs where invs: "mapE read_invoice invoices = Inr invs"
    using mapE_succeeds [of invoices read_invoice] read_invoice_succeeds wi by blast
  let ?t = "je_totals ls" and ?g = "project_invoices invs (gl_from_jes ps)"
  from ls ps invs have v: "verify_financials je_rows invoices = Inr (report ?t ?g)"
    by (simp add: verify_financials_def bindE_def)
  have l1: "unbalanced ?t \<noteq> 0 \<longrightarrow> JE_FAIL (unbalanced ?t) \<in> set (report ?t ?g)"
    using report_verdict_lines(1) [of ?t ?g] by (cases "unbalanced ?t = 0") auto
  have l2: "\<not> tb_balanced ?g \<longrightarrow> TB_WARN (tb_diff ?g) \<in> set (report ?t ?g)"
    using report_verdict_lines(2) [of ?g ?t] by (cases "tb_balanced ?g") auto
  have l3: "\<not> ni_within_target (of_int NET_INCOME) ?g \<longrightarrow>
              NI_WARN (ni_diff (of_int NET_INCOME) ?g) \<in> set (report ?t ?g)"
    using report_verdict_lines(3) [of ?g ?t]
    by (cases "ni_within_target (of_int NET_INCOME) ?g") auto
  from ls ps invs v l1 l2 l3 show ?thesis by blast
qed

text \<open>
  One journal row with a debit and no credit, and one receivable without \<open>gl_account\<close>:
  the entry is unbalanced and the report is returned with its \<open>JE_FAIL\<close> line.
\<close>

theorem verify_financials_never_raises_witness:
  "list_all wf_je_row
     [[(''entry_number'', Text ''JE-0001''), (''account_number'', IntStr 1000),
       (''debit'', DecStr 100), (''credit'', Text [])]]
   \<and> list_all wf_invoice_row
     [[(''invoice_type'', Text ''receivable''), (''amount'', IntStr 100),
       (''status'', Text ''pending'')]]
   \<and> (\<exists>rep. verify_financials
         [[(''entry_number'', Text ''JE-0001''), (''account_number'', IntStr 1000),
           (''debit'', DecStr 100), (''credit'', Text [])]]
         [[(''invoice_type'', Text ''receivable''), (''amount'', IntStr 100),
           (''status'', Text ''pending'')]] = Inr rep
        \<and> JE_FAIL 1 \<in> set rep)"
proof -
  let ?je = "[[(''entry_number'', Text ''JE-0001''), (''account_number'', IntStr 1000),
       (''debit'', DecStr 100), (''credit'', Text [])]]"
  let ?iv = "[[(''invoice_type'', Text ''receivable''), (''amount'', IntStr 100),
       (''status'', Text ''pending'')]]"
  have h1: "list_all wf_je_row ?je"
    by (simp add: wf_je_row_def empty_or_number_def)
  have h2: "list_all wf_invoice_row ?iv"
    by (simp add: wf_invoice_row_def)
  from verify_financials_never_raises [OF h1 h2]
  obtain ls ps invs where
    ls: "mapE read_je_amounts ?je = Inr ls" and
    v: "verify_financials ?je ?iv
          = Inr (report (je_totals ls) (project_invoices invs (gl_from_jes ps)))" and
    f: "unbalanced (je_totals ls) \<noteq> 0 \<longrightarrow>
          JE_FAIL (unbalanced (je_totals ls))
            \<in> set (report (je_totals ls) (project_invoices invs (gl_from_jes ps)))"
    by blast
  have "mapE read_je_amounts ?je
          = Inr [\<lparr>entry_number = Text ''JE-0001'', debit = 100, credit = 0\<rparr>]"
    by (simp add: read_je_amounts_def float_or_0_def getitem_def bindE_def)
  with ls have "ls = [\<lparr>entry_number = Text ''JE-0001'', debit = 100, credit = 0\<rparr>]"
    by simp
  then have "unbalanced (je_totals ls) = 1"
    by (simp add: je_totals_def je_totals_add_def totals_of_def unbalanced_def Let_def)
  with f have "JE_FAIL 1 \<in> set (report (je_totals ls) (project_invoices invs (gl_from_jes ps)))"
    by simp
  with v h1 h2 show ?thesis by blast
qed

section \<open>The generators: rounding and cents\<close>

lemma py_round_of_int: "py_round (of_int n) = n"
  by (simp add: py_round_def)








section \<open>Computations that return\<close>

lemma returns_Inr: "P x \<Longrightarrow> returns P (Inr x)"
  by (simp add: returns_def)



lemma returns_weaken: "returns P m \<Longrightarrow> (\<And>x. P x \<Longrightarrow> Q x) \<Longrightarrow> returns Q m"
  by (cases m) (simp_all add: returns_def)





section \<open>allocate\_to\_months\<close>



section \<open>add\_je\<close>











section \<open>Tables of monthly amounts\<close>



section \<open>Lines whose debits equal their credits\<close>












section \<open>The expense loop\<close>



section \<open>The monthly entries\<close>






section \<open>generate\_journal\_entries returns balanced rows\<close>






section \<open>The trial balance of the generated dataset\<close>

subsection \<open>The global sum of an accumulator\<close>








subsection \<open>Rows of generate\_invoices\<close>












section \<open>Rounding to binary64\<close>

lemma powi_succ: "(2::real) powi (d + 1) = 2 powi d * 2"
  by (simp add: power_int_add)

lemma powi_pred: "(2::real) powi (d - 1) = 2 powi d / 2"
  by (simp add: power_int_diff)

lemma scale_whole:
  assumes "m \<in> \<int>" and "\<bar>m\<bar> < 2 ^ 53" and "scale n m e = (m', e')"
  shows "m' \<in> \<int> \<and> m' * 2 powi e' = m * 2 powi e"
  using assms
proof (induction n arbitrary: m e)
  case 0
  then show ?case by simp
next
  case (Suc n)
  show ?case
  proof (cases "\<bar>m\<bar> < 2 ^ 52 \<and> - 1074 < e")
    case True
    with Suc.prems have s: "scale n (m * 2) (e - 1) = (m', e')" by simp
    have "m * 2 \<in> \<int>" using Suc.prems(1) by simp
    moreover have "\<bar>m * 2\<bar> < 2 ^ 53" using True by (simp add: abs_mult)
    ultimately have "m' \<in> \<int> \<and> m' * 2 powi e' = (m * 2) * 2 powi (e - 1)"
      using s by (rule Suc.IH)
    moreover have "(m * 2) * 2 powi (e - 1) = m * 2 powi e"
      by (simp add: powi_pred)
    ultimately show ?thesis by simp
  next
    case False
    with Suc.prems show ?thesis by auto
  qed
qed

lemma fl_whole:
  assumes "x \<in> \<int>" and "\<bar>x\<bar> < 2 ^ 53"
  shows "fl x = Fin x"
proof -
  obtain m e where s: "scale 2200 x 0 = (m, e)" by (cases "scale 2200 x 0")
  from scale_whole [OF assms s] have m: "m \<in> \<int>" and v: "m * 2 powi e = x" by simp_all
  from m obtain k where "m = of_int k" by (auto elim: Ints_cases)
  then have "of_int (py_round m) * 2 powi e = x"
    using v by (simp add: py_round_of_int)
  moreover have "\<bar>x\<bar> < 2 ^ 1024"
  proof -
    have "(2::real) ^ 53 \<le> 2 ^ 1024" by (rule power_increasing) simp_all
    with assms(2) show ?thesis by linarith
  qed
  ultimately show ?thesis by (simp add: fl_def s Let_def)
qed

lemma powi_ge_2: "1 \<le> d \<Longrightarrow> (2::real) \<le> 2 powi d"
proof -
  assume "1 \<le> d"
  then have "d = int (Suc (nat (d - 1)))" by simp
  then have "(2::real) powi d = 2 powi int (Suc (nat (d - 1)))" by simp
  also have "\<dots> = 2 * 2 ^ nat (d - 1)" by (simp only: power_int_of_nat power_Suc)
  finally have "(2::real) powi d = 2 * 2 ^ nat (d - 1)" .
  moreover have "(1::real) \<le> 2 ^ nat (d - 1)" by simp
  ultimately show ?thesis by linarith
qed

lemma powi_le_half: "d \<le> - 1 \<Longrightarrow> (2::real) powi d \<le> 1 / 2"
proof -
  assume "d \<le> - 1"
  then have "2 \<le> (2::real) powi (- d)" by (intro powi_ge_2) simp
  then have "1 / ((2::real) powi (- d)) \<le> 1 / 2" by (intro divide_left_mono) simp_all
  then show ?thesis by (simp add: power_int_minus field_simps)
qed

lemma scale_reaches:
  assumes "m = ms * 2 powi (es - e)"
    and "\<bar>ms\<bar> < 2 ^ 53"
    and "2 ^ 52 \<le> \<bar>ms\<bar> \<or> es = - 1074"
    and "- 1074 \<le> es" and "- 1074 \<le> e"
    and "nat \<bar>e - es\<bar> \<le> n"
  shows "scale n m e = (ms, es)"
  using assms
proof (induction n arbitrary: m e)
  case 0
  then show ?case by simp
next
  case (Suc n)
  consider "e = es" | "e < es" | "es < e" by linarith
  then show ?case
  proof cases
    case 1
    with Suc.prems show ?thesis by auto
  next
    case 2
    with Suc.prems have n: "2 ^ 52 \<le> \<bar>ms\<bar>" by auto
    from 2 have "2 \<le> (2::real) powi (es - e)" by (intro powi_ge_2) simp
    then have "\<bar>ms\<bar> * 2 \<le> \<bar>ms\<bar> * 2 powi (es - e)"
      by (intro mult_left_mono) simp_all
    with n Suc.prems(1) have big: "2 ^ 53 \<le> \<bar>m\<bar>" by (simp add: abs_mult)
    have "scale n (m / 2) (e + 1) = (ms, es)"
    proof (rule Suc.IH)
      have "es - (e + 1) = es - e - 1" by simp
      then show "m / 2 = ms * 2 powi (es - (e + 1))"
        using Suc.prems(1) by (simp only: powi_pred)
      show "nat \<bar>e + 1 - es\<bar> \<le> n" using Suc.prems(6) 2 by simp
      show "- 1074 \<le> e + 1" using Suc.prems(5) by simp
    qed (use Suc.prems in simp_all)
    with big show ?thesis by simp
  next
    case 3
    then have "(2::real) powi (es - e) \<le> 1 / 2" by (intro powi_le_half) simp
    then have "\<bar>ms\<bar> * 2 powi (es - e) \<le> \<bar>ms\<bar> * (1 / 2)"
      by (intro mult_left_mono) simp_all
    with Suc.prems(1,2) have small: "\<bar>m\<bar> < 2 ^ 52" by (simp add: abs_mult)
    have "scale n (m * 2) (e - 1) = (ms, es)"
    proof (rule Suc.IH)
      have "es - (e - 1) = es - e + 1" by simp
      then show "m * 2 = ms * 2 powi (es - (e - 1))"
        using Suc.prems(1) by (simp only: powi_succ)
      show "nat \<bar>e - 1 - es\<bar> \<le> n" using Suc.prems(6) 3 by simp
      show "- 1074 \<le> e - 1" using Suc.prems(4) 3 by simp
    qed (use Suc.prems in simp_all)
    with small 3 Suc.prems(4) show ?thesis by simp
  qed
qed

lemma fl_eval:
  assumes "\<bar>x * 2 powi k\<bar> < 2 ^ 53"
    and "2 ^ 52 \<le> \<bar>x * 2 powi k\<bar> \<or> k = 1074"
    and "k \<le> 1074" and "- 2000 \<le> k"
  shows "fl x = (let r = of_int (py_round (x * 2 powi k)) * 2 powi (- k)
                 in if 2 ^ 1024 \<le> \<bar>r\<bar> then (if 0 < x then PInf else NInf) else Fin r)"
proof -
  have "scale 2200 x 0 = (x * 2 powi k, - k)"
  proof (rule scale_reaches)
    show "x = x * 2 powi k * 2 powi (- k - 0)" by (simp add: power_int_minus)
    show "nat \<bar>0 - - k\<bar> \<le> 2200" using assms(3,4) by simp
  qed (use assms in auto)
  then show ?thesis by (simp add: fl_def)
qed

section \<open>Sums of whole numbers in binary64\<close>

lemma is_whole_Fin: "is_whole (Fin x) = (x \<in> \<int>)"
proof
  assume "is_whole (Fin x)"
  then have "x = of_int \<lfloor>x\<rfloor>" by simp
  then show "x \<in> \<int>" by (metis Ints_of_int)
next
  assume "x \<in> \<int>"
  then show "is_whole (Fin x)" by (auto elim: Ints_cases)
qed

lemma is_whole_val: "is_whole x \<Longrightarrow> x = Fin (val x) \<and> val x \<in> \<int> \<and> mag x = \<bar>val x\<bar>"
  by (cases x) (simp_all add: is_whole_Fin del: is_whole.simps(1))

lemma mag_nonneg: "0 \<le> mag x"
  by (cases x) simp_all

lemma fadd_whole:
  assumes "a \<in> \<int>" and "b \<in> \<int>" and "\<bar>a\<bar> + \<bar>b\<bar> < 2 ^ 53"
  shows "fadd (Fin a) (Fin b) = Fin (a + b)"
proof -
  have "\<bar>a + b\<bar> < 2 ^ 53" using assms(3) by linarith
  moreover have "a + b \<in> \<int>" using assms(1,2) by simp
  ultimately show ?thesis by (simp add: fl_whole)
qed

lemma fsub_whole:
  assumes "a \<in> \<int>" and "b \<in> \<int>" and "\<bar>a\<bar> + \<bar>b\<bar> < 2 ^ 53"
  shows "fsub (Fin a) (Fin b) = Fin (a - b)"
  using fadd_whole [of a "- b"] assms by (simp add: fsub_def)

lemma foldl_fadd_whole:
  assumes "list_all is_whole xs" and "a \<in> \<int>"
    and "\<bar>a\<bar> + (\<Sum>x\<leftarrow>xs. mag x) < 2 ^ 53"
  shows "foldl fadd (Fin a) xs = Fin (a + (\<Sum>x\<leftarrow>xs. val x))"
  using assms
proof (induction xs arbitrary: a)
  case Nil
  then show ?case by simp
next
  case (Cons x xs)
  from Cons.prems(1) have x: "x = Fin (val x)" "val x \<in> \<int>" "mag x = \<bar>val x\<bar>"
    and xs: "list_all is_whole xs"
    by (simp_all add: is_whole_val)
  have nn: "0 \<le> (\<Sum>x\<leftarrow>xs. mag x)"
    by (rule sum_list_nonneg) (auto simp add: mag_nonneg)
  from Cons.prems(3) x(3) nn have b: "\<bar>a\<bar> + \<bar>val x\<bar> < 2 ^ 53" by simp
  have "fadd (Fin a) x = Fin (a + val x)"
    using fadd_whole [OF Cons.prems(2) x(2) b] x(1) by simp
  moreover have "foldl fadd (Fin (a + val x)) xs = Fin (a + val x + (\<Sum>x\<leftarrow>xs. val x))"
  proof (rule Cons.IH [OF xs])
    show "a + val x \<in> \<int>" using Cons.prems(2) x(2) by simp
    show "\<bar>a + val x\<bar> + (\<Sum>x\<leftarrow>xs. mag x) < 2 ^ 53"
      using Cons.prems(3) x(3) by simp
  qed
  ultimately show ?case by (simp add: add.assoc)
qed

lemma fsum_whole:
  assumes "list_all is_whole xs" and "(\<Sum>x\<leftarrow>xs. mag x) < 2 ^ 53"
  shows "fsum xs = Fin (\<Sum>x\<leftarrow>xs. val x)"
  using foldl_fadd_whole [OF assms(1), of 0] assms(2) by (simp add: fsum_def)

section \<open>The balance checker over binary64\<close>

lemma totals_of64_update:
  "totals_of64 (AList.update k v t) a = (if a = k then v else totals_of64 t a)"
  by (simp add: totals_of64_def update_conv')

lemma je_totals_add64_totals:
  "totals_of64 (je_totals_add64 l t) k =
     (if k = entry_number64 l
      then (fadd (fst (totals_of64 t k)) (debit64 l), fadd (snd (totals_of64 t k)) (credit64 l))
      else totals_of64 t k)"
  by (simp add: je_totals_add64_def Let_def totals_of64_update)

lemma je_totals_add64_keys:
  "fst ` set (je_totals_add64 l t) = insert (entry_number64 l) (fst ` set t)"
  by (simp add: je_totals_add64_def Let_def dom_update)

lemma je_totals_add64_distinct:
  "distinct (map fst t) \<Longrightarrow> distinct (map fst (je_totals_add64 l t))"
  by (simp add: je_totals_add64_def Let_def distinct_update)

lemma fold_je_totals_add64_totals:
  "totals_of64 (fold je_totals_add64 ls t) k =
     (foldl fadd (fst (totals_of64 t k)) (map debit64 (filter (\<lambda>l. entry_number64 l = k) ls)),
      foldl fadd (snd (totals_of64 t k)) (map credit64 (filter (\<lambda>l. entry_number64 l = k) ls)))"
proof (induction ls arbitrary: t)
  case Nil
  show ?case by simp
next
  case (Cons l ls)
  show ?case
    by (simp add: Cons.IH [of "je_totals_add64 l t"] je_totals_add64_totals)
qed

lemma fold_je_totals_add64_keys:
  "fst ` set (fold je_totals_add64 ls t) = fst ` set t \<union> entry_number64 ` set ls"
  by (induction ls arbitrary: t) (auto simp add: je_totals_add64_keys)

lemma fold_je_totals_add64_distinct:
  "distinct (map fst t) \<Longrightarrow> distinct (map fst (fold je_totals_add64 ls t))"
  by (induction ls arbitrary: t) (simp_all add: je_totals_add64_distinct)

lemma je_totals64_keys: "fst ` set (je_totals64 ls) = entry_number64 ` set ls"
  by (simp add: je_totals64_def fold_je_totals_add64_keys)

lemma je_totals64_distinct: "distinct (map fst (je_totals64 ls))"
  by (simp add: je_totals64_def fold_je_totals_add64_distinct)

lemma je_totals64_totals:
  "totals_of64 (je_totals64 ls) k = (entry_debits64 ls k, entry_credits64 ls k)"
  unfolding je_totals64_def fold_je_totals_add64_totals
  by (simp add: totals_of64_def entry_debits64_def entry_credits64_def fsum_def)

lemma je_totals64_map_of:
  "map_of (je_totals64 ls) k =
     (if k \<in> entry_number64 ` set ls
      then Some (entry_debits64 ls k, entry_credits64 ls k) else None)"
proof (cases "k \<in> entry_number64 ` set ls")
  case False
  then have "k \<notin> fst ` set (je_totals64 ls)" by (simp add: je_totals64_keys)
  then have "map_of (je_totals64 ls) k = None" by (simp add: map_of_eq_None_iff)
  with False show ?thesis by simp
next
  case True
  then have "k \<in> fst ` set (je_totals64 ls)" by (simp add: je_totals64_keys)
  then obtain p where p: "map_of (je_totals64 ls) k = Some p"
    by (metis map_of_eq_None_iff not_Some_eq)
  with je_totals64_totals [of ls k] have "p = (entry_debits64 ls k, entry_credits64 ls k)"
    by (simp add: totals_of64_def)
  with p True show ?thesis by simp
qed

lemma unbalanced64_fold:
  "fold (\<lambda>(je, d, c) n. if fgt (fabs (fsub d c)) (fl 0.02) then n + 1 else n) t m =
     m + length (filter (\<lambda>(je, d, c). fgt (fabs (fsub d c)) (fl 0.02)) t)"
  by (induction t arbitrary: m) (auto split: prod.splits)

lemma length_filter_card:
  assumes "distinct (map fst t)"
  shows "length (filter (\<lambda>(k, v). Q v) t)
           = card {k \<in> fst ` set t. \<exists>v. map_of t k = Some v \<and> Q v}"
proof -
  let ?Q = "\<lambda>(k, v). Q v"
  from assms have dt: "distinct t" by (rule distinct_map [THEN iffD1, THEN conjunct1])
  from assms have inj: "inj_on fst (set t)" by (simp add: distinct_map)
  have "length (filter ?Q t) = card (set (filter ?Q t))"
    using dt by (metis distinct_card distinct_filter)
  also have "\<dots> = card (fst ` set (filter ?Q t))"
    using inj by (metis card_image filter_is_subset inj_on_subset)
  also have "fst ` set (filter ?Q t)
      = {k \<in> fst ` set t. \<exists>v. map_of t k = Some v \<and> Q v}"
  proof (intro set_eqI iffI)
    fix k
    assume "k \<in> fst ` set (filter ?Q t)"
    then obtain v where m: "(k, v) \<in> set t" and q: "Q v" by auto
    from assms m have "map_of t k = Some v" by (rule map_of_is_SomeI)
    moreover from m have "k \<in> fst ` set t" by force
    ultimately show "k \<in> {k \<in> fst ` set t. \<exists>v. map_of t k = Some v \<and> Q v}"
      using q by blast
  next
    fix k
    assume "k \<in> {k \<in> fst ` set t. \<exists>v. map_of t k = Some v \<and> Q v}"
    then obtain v where v: "map_of t k = Some v" and q: "Q v" by blast
    from v have "(k, v) \<in> set t" by (rule map_of_SomeD)
    with q have "(k, v) \<in> set (filter ?Q t)" by simp
    then show "k \<in> fst ` set (filter ?Q t)" by force
  qed
  finally show ?thesis .
qed

lemma unbalanced64_card:
  assumes "distinct (map fst t)"
  shows "unbalanced64 t =
           card {k \<in> fst ` set t.
             fgt (fabs (fsub (fst (totals_of64 t k)) (snd (totals_of64 t k)))) (fl 0.02)}"
proof -
  let ?P = "\<lambda>v. fgt (fabs (fsub (fst v) (snd v))) (fl 0.02)"
  have eq: "(\<lambda>(je, d, c). fgt (fabs (fsub d c)) (fl 0.02)) = (\<lambda>(k, v). ?P v)"
    by (rule ext) (simp only: split_beta fst_conv snd_conv)
  have "unbalanced64 t = length (filter (\<lambda>(k, v). ?P v) t)"
    unfolding unbalanced64_def unbalanced64_fold eq by (simp only: add_0)
  also have "\<dots> = card {k \<in> fst ` set t. \<exists>v. map_of t k = Some v \<and> ?P v}"
    using assms by (rule length_filter_card)
  also have "{k \<in> fst ` set t. \<exists>v. map_of t k = Some v \<and> ?P v}
      = {k \<in> fst ` set t. ?P (totals_of64 t k)}"
  proof (intro Collect_cong conj_cong refl)
    fix k
    assume "k \<in> fst ` set t"
    then obtain v where v: "map_of t k = Some v"
      by (metis map_of_eq_None_iff not_Some_eq)
    then have "totals_of64 t k = v" by (simp only: totals_of64_def option.case)
    with v show "(\<exists>v. map_of t k = Some v \<and> ?P v) = ?P (totals_of64 t k)"
      by (simp only: option.inject ex_simps simp_thms)
  qed
  finally show ?thesis .
qed

lemma je_totals64_unbalanced:
  "unbalanced64 (je_totals64 ls) =
     card {k \<in> entry_number64 ` set ls.
       fgt (fabs (fsub (entry_debits64 ls k) (entry_credits64 ls k))) (fl 0.02)}"
  by (simp add: unbalanced64_card [OF je_totals64_distinct] je_totals64_keys je_totals64_totals)

text \<open>Lines of different entries may be interleaved in any way.\<close>

lemma je_totals64_same_entries:
  assumes "\<And>k. filter (\<lambda>l. entry_number64 l = k) ls' = filter (\<lambda>l. entry_number64 l = k) ls"
  shows "map_of (je_totals64 ls') = map_of (je_totals64 ls)"
    and "unbalanced64 (je_totals64 ls') = unbalanced64 (je_totals64 ls)"
proof -
  have mem: "k \<in> entry_number64 ` set ls' \<longleftrightarrow> k \<in> entry_number64 ` set ls" for k
  proof -
    have e: "k \<in> entry_number64 ` set xs \<longleftrightarrow> filter (\<lambda>l. entry_number64 l = k) xs \<noteq> []"
      for xs
      by (auto simp add: filter_empty_conv)
    show ?thesis by (simp only: e assms)
  qed
  then have keys: "entry_number64 ` set ls' = entry_number64 ` set ls" by blast
  have d: "entry_debits64 ls' k = entry_debits64 ls k" for k
    by (simp add: entry_debits64_def assms)
  have c: "entry_credits64 ls' k = entry_credits64 ls k" for k
    by (simp add: entry_credits64_def assms)
  show "map_of (je_totals64 ls') = map_of (je_totals64 ls)"
    by (rule ext) (simp add: je_totals64_map_of keys d c)
  show "unbalanced64 (je_totals64 ls') = unbalanced64 (je_totals64 ls)"
    by (simp add: je_totals64_unbalanced keys d c)
qed

text \<open>Whole amounts: the totals are exact, and any permutation gives them.\<close>

lemma whole_lines_mset:
  assumes "whole_lines ls" and "mset ls' = mset ls"
  shows "whole_lines ls'"
proof -
  from assms(2) have "set ls' = set ls" by (rule mset_eq_setD)
  moreover have "(\<Sum>l\<leftarrow>ls'. mag (debit64 l) + mag (credit64 l))
      = (\<Sum>l\<leftarrow>ls. mag (debit64 l) + mag (credit64 l))"
    by (rule sum_list_mset_cong [OF assms(2)])
  ultimately show ?thesis using assms(1) by (simp add: whole_lines_def list_all_iff)
qed

lemma sum_list_filter_le:
  fixes f :: "'a \<Rightarrow> real"
  assumes "\<And>x. 0 \<le> f x"
  shows "(\<Sum>x\<leftarrow>filter P xs. f x) \<le> (\<Sum>x\<leftarrow>xs. f x)"
proof (induction xs)
  case Nil
  show ?case by simp
next
  case (Cons x xs)
  then show ?case using assms [of x] by simp
qed

lemma entry_debits64_whole:
  assumes "whole_lines ls"
  shows "entry_debits64 ls k
           = Fin (\<Sum>l\<leftarrow>filter (\<lambda>l. entry_number64 l = k) ls. val (debit64 l))"
proof -
  let ?xs = "filter (\<lambda>l. entry_number64 l = k) ls"
  from assms have w: "list_all is_whole (map debit64 ?xs)"
    by (simp add: whole_lines_def list_all_iff)
  have "(\<Sum>l\<leftarrow>?xs. mag (debit64 l)) \<le> (\<Sum>l\<leftarrow>?xs. mag (debit64 l) + mag (credit64 l))"
    by (rule sum_list_mono) (simp add: mag_nonneg)
  also have "\<dots> \<le> (\<Sum>l\<leftarrow>ls. mag (debit64 l) + mag (credit64 l))"
    by (rule sum_list_filter_le) (simp add: mag_nonneg)
  also have "\<dots> < 2 ^ 53" using assms by (simp add: whole_lines_def)
  finally have "(\<Sum>x\<leftarrow>map debit64 ?xs. mag x) < 2 ^ 53" by (simp add: comp_def)
  from fsum_whole [OF w this] show ?thesis
    by (simp add: entry_debits64_def comp_def)
qed

lemma entry_credits64_whole:
  assumes "whole_lines ls"
  shows "entry_credits64 ls k
           = Fin (\<Sum>l\<leftarrow>filter (\<lambda>l. entry_number64 l = k) ls. val (credit64 l))"
proof -
  let ?xs = "filter (\<lambda>l. entry_number64 l = k) ls"
  from assms have w: "list_all is_whole (map credit64 ?xs)"
    by (simp add: whole_lines_def list_all_iff)
  have "(\<Sum>l\<leftarrow>?xs. mag (credit64 l)) \<le> (\<Sum>l\<leftarrow>?xs. mag (debit64 l) + mag (credit64 l))"
    by (rule sum_list_mono) (simp add: mag_nonneg)
  also have "\<dots> \<le> (\<Sum>l\<leftarrow>ls. mag (debit64 l) + mag (credit64 l))"
    by (rule sum_list_filter_le) (simp add: mag_nonneg)
  also have "\<dots> < 2 ^ 53" using assms by (simp add: whole_lines_def)
  finally have "(\<Sum>x\<leftarrow>map credit64 ?xs. mag x) < 2 ^ 53" by (simp add: comp_def)
  from fsum_whole [OF w this] show ?thesis
    by (simp add: entry_credits64_def comp_def)
qed

lemma sum_list_filter_mset:
  fixes f :: "'a \<Rightarrow> real"
  assumes "mset xs = mset ys"
  shows "(\<Sum>x\<leftarrow>filter P xs. f x) = (\<Sum>x\<leftarrow>filter P ys. f x)"
proof -
  from assms have "mset (filter P xs) = mset (filter P ys)" by (simp only: mset_filter)
  then show ?thesis by (rule sum_list_mset_cong)
qed

lemma je_totals64_whole_mset:
  assumes "whole_lines ls" and "mset ls' = mset ls"
  shows "map_of (je_totals64 ls') = map_of (je_totals64 ls)"
    and "unbalanced64 (je_totals64 ls') = unbalanced64 (je_totals64 ls)"
proof -
  from assms have w': "whole_lines ls'" by (rule whole_lines_mset)
  from assms(2) have "set ls' = set ls" by (rule mset_eq_setD)
  then have keys: "entry_number64 ` set ls' = entry_number64 ` set ls" by simp
  have d: "entry_debits64 ls' k = entry_debits64 ls k" for k
    by (simp only: entry_debits64_whole [OF w'] entry_debits64_whole [OF assms(1)]
        sum_list_filter_mset [OF assms(2)])
  have c: "entry_credits64 ls' k = entry_credits64 ls k" for k
    by (simp only: entry_credits64_whole [OF w'] entry_credits64_whole [OF assms(1)]
        sum_list_filter_mset [OF assms(2)])
  show "map_of (je_totals64 ls') = map_of (je_totals64 ls)"
    by (rule ext) (simp add: je_totals64_map_of keys d c)
  show "unbalanced64 (je_totals64 ls') = unbalanced64 (je_totals64 ls)"
    by (simp add: je_totals64_unbalanced keys d c)
qed

text \<open>
  Claim C3, over binary64. For every list of journal lines the balance checker maps each
  entry identifier that occurs in it to the pair of the sum of that entry's debits and
  the sum of its credits, each accumulated in binary64 from \<^verbatim>\<open>0.0\<close> in the order of the
  lines, and maps no other identifier; the unbalanced count is the number of identifiers
  for which \<^verbatim>\<open>abs(total_debit - total_credit)\<close>, computed in binary64, exceeds the double
  nearest to 0.02. Totals and count are the same for two lists that hold, for every
  entry, the same lines in the same order, however the entries are interleaved. They
  are the same for every permutation of the lines when all amounts are whole numbers
  whose absolute values sum to less than \<open>2 ^ 53\<close>, so that no addition rounds; then a
  list whose count is zero has the count zero in every order. Without that condition
  the order of the lines of one entry matters: the example after the theorem.
\<close>
theorem balance_checker_order:
  "map_of (je_totals64 ls) k =
     (if k \<in> entry_number64 ` set ls
      then Some (entry_debits64 ls k, entry_credits64 ls k) else None)
   \<and> unbalanced64 (je_totals64 ls) =
       card {k \<in> entry_number64 ` set ls.
         fgt (fabs (fsub (entry_debits64 ls k) (entry_credits64 ls k))) (fl 0.02)}
   \<and> ((\<forall>k. filter (\<lambda>l. entry_number64 l = k) ls' = filter (\<lambda>l. entry_number64 l = k) ls)
        \<longrightarrow> map_of (je_totals64 ls') = map_of (je_totals64 ls)
          \<and> unbalanced64 (je_totals64 ls') = unbalanced64 (je_totals64 ls))
   \<and> (whole_lines ls \<and> mset ls' = mset ls
        \<longrightarrow> map_of (je_totals64 ls') = map_of (je_totals64 ls)
          \<and> unbalanced64 (je_totals64 ls') = unbalanced64 (je_totals64 ls))"
proof (intro conjI impI)
  show "map_of (je_totals64 ls) k =
     (if k \<in> entry_number64 ` set ls
      then Some (entry_debits64 ls k, entry_credits64 ls k) else None)"
    by (rule je_totals64_map_of)
  show "unbalanced64 (je_totals64 ls) =
       card {k \<in> entry_number64 ` set ls.
         fgt (fabs (fsub (entry_debits64 ls k) (entry_credits64 ls k))) (fl 0.02)}"
    by (rule je_totals64_unbalanced)
next
  assume "\<forall>k. filter (\<lambda>l. entry_number64 l = k) ls' = filter (\<lambda>l. entry_number64 l = k) ls"
  then have e: "filter (\<lambda>l. entry_number64 l = k) ls' = filter (\<lambda>l. entry_number64 l = k) ls"
    for k by blast
  show "map_of (je_totals64 ls') = map_of (je_totals64 ls)"
    using e by (rule je_totals64_same_entries(1))
  show "unbalanced64 (je_totals64 ls') = unbalanced64 (je_totals64 ls)"
    using e by (rule je_totals64_same_entries(2))
next
  assume h: "whole_lines ls \<and> mset ls' = mset ls"
  then have w: "whole_lines ls" and m: "mset ls' = mset ls" by simp_all
  show "map_of (je_totals64 ls') = map_of (je_totals64 ls)"
    using w m by (rule je_totals64_whole_mset(1))
  show "unbalanced64 (je_totals64 ls') = unbalanced64 (je_totals64 ls)"
    using w m by (rule je_totals64_whole_mset(2))
qed

text \<open>Two entries of whole amounts, their lines interleaved in two ways.\<close>

theorem balance_checker_order_witness:
  "(\<forall>k. filter (\<lambda>l. entry_number64 l = k)
          [\<lparr>entry_number64 = Text ''JE-0002'', debit64 = Fin 50, credit64 = Fin 0\<rparr>,
           \<lparr>entry_number64 = Text ''JE-0001'', debit64 = Fin 100, credit64 = Fin 0\<rparr>,
           \<lparr>entry_number64 = Text ''JE-0002'', debit64 = Fin 0, credit64 = Fin 50\<rparr>,
           \<lparr>entry_number64 = Text ''JE-0001'', debit64 = Fin 0, credit64 = Fin 100\<rparr>]
        = filter (\<lambda>l. entry_number64 l = k)
          [\<lparr>entry_number64 = Text ''JE-0001'', debit64 = Fin 100, credit64 = Fin 0\<rparr>,
           \<lparr>entry_number64 = Text ''JE-0002'', debit64 = Fin 50, credit64 = Fin 0\<rparr>,
           \<lparr>entry_number64 = Text ''JE-0001'', debit64 = Fin 0, credit64 = Fin 100\<rparr>,
           \<lparr>entry_number64 = Text ''JE-0002'', debit64 = Fin 0, credit64 = Fin 50\<rparr>])
   \<and> whole_lines
          [\<lparr>entry_number64 = Text ''JE-0001'', debit64 = Fin 100, credit64 = Fin 0\<rparr>,
           \<lparr>entry_number64 = Text ''JE-0002'', debit64 = Fin 50, credit64 = Fin 0\<rparr>,
           \<lparr>entry_number64 = Text ''JE-0001'', debit64 = Fin 0, credit64 = Fin 100\<rparr>,
           \<lparr>entry_number64 = Text ''JE-0002'', debit64 = Fin 0, credit64 = Fin 50\<rparr>]
   \<and> mset [\<lparr>entry_number64 = Text ''JE-0002'', debit64 = Fin 50, credit64 = Fin 0\<rparr>,
           \<lparr>entry_number64 = Text ''JE-0001'', debit64 = Fin 100, credit64 = Fin 0\<rparr>,
           \<lparr>entry_number64 = Text ''JE-0002'', debit64 = Fin 0, credit64 = Fin 50\<rparr>,
           \<lparr>entry_number64 = Text ''JE-0001'', debit64 = Fin 0, credit64 = Fin 100\<rparr>]
     = mset [\<lparr>entry_number64 = Text ''JE-0001'', debit64 = Fin 100, credit64 = Fin 0\<rparr>,
           \<lparr>entry_number64 = Text ''JE-0002'', debit64 = Fin 50, credit64 = Fin 0\<rparr>,
           \<lparr>entry_number64 = Text ''JE-0001'', debit64 = Fin 0, credit64 = Fin 100\<rparr>,
           \<lparr>entry_number64 = Text ''JE-0002'', debit64 = Fin 0, credit64 = Fin 50\<rparr>]
   \<and> map_of (je_totals64
          [\<lparr>entry_number64 = Text ''JE-0002'', debit64 = Fin 50, credit64 = Fin 0\<rparr>,
           \<lparr>entry_number64 = Text ''JE-0001'', debit64 = Fin 100, credit64 = Fin 0\<rparr>,
           \<lparr>entry_number64 = Text ''JE-0002'', debit64 = Fin 0, credit64 = Fin 50\<rparr>,
           \<lparr>entry_number64 = Text ''JE-0001'', debit64 = Fin 0, credit64 = Fin 100\<rparr>])
     = map_of (je_totals64
          [\<lparr>entry_number64 = Text ''JE-0001'', debit64 = Fin 100, credit64 = Fin 0\<rparr>,
           \<lparr>entry_number64 = Text ''JE-0002'', debit64 = Fin 50, credit64 = Fin 0\<rparr>,
           \<lparr>entry_number64 = Text ''JE-0001'', debit64 = Fin 0, credit64 = Fin 100\<rparr>,
           \<lparr>entry_number64 = Text ''JE-0002'', debit64 = Fin 0, credit64 = Fin 50\<rparr>])
   \<and> unbalanced64 (je_totals64
          [\<lparr>entry_number64 = Text ''JE-0002'', debit64 = Fin 50, credit64 = Fin 0\<rparr>,
           \<lparr>entry_number64 = Text ''JE-0001'', debit64 = Fin 100, credit64 = Fin 0\<rparr>,
           \<lparr>entry_number64 = Text ''JE-0002'', debit64 = Fin 0, credit64 = Fin 50\<rparr>,
           \<lparr>entry_number64 = Text ''JE-0001'', debit64 = Fin 0, credit64 = Fin 100\<rparr>])
     = unbalanced64 (je_totals64
          [\<lparr>entry_number64 = Text ''JE-0001'', debit64 = Fin 100, credit64 = Fin 0\<rparr>,
           \<lparr>entry_number64 = Text ''JE-0002'', debit64 = Fin 50, credit64 = Fin 0\<rparr>,
           \<lparr>entry_number64 = Text ''JE-0001'', debit64 = Fin 0, credit64 = Fin 100\<rparr>,
           \<lparr>entry_number64 = Text ''JE-0002'', debit64 = Fin 0, credit64 = Fin 50\<rparr>])"
  using balance_checker_order [of
      "[\<lparr>entry_number64 = Text ''JE-0001'', debit64 = Fin 100, credit64 = Fin 0\<rparr>,
        \<lparr>entry_number64 = Text ''JE-0002'', debit64 = Fin 50, credit64 = Fin 0\<rparr>,
        \<lparr>entry_number64 = Text ''JE-0001'', debit64 = Fin 0, credit64 = Fin 100\<rparr>,
        \<lparr>entry_number64 = Text ''JE-0002'', debit64 = Fin 0, credit64 = Fin 50\<rparr>]"
      "Text ''JE-0001''"
      "[\<lparr>entry_number64 = Text ''JE-0002'', debit64 = Fin 50, credit64 = Fin 0\<rparr>,
        \<lparr>entry_number64 = Text ''JE-0001'', debit64 = Fin 100, credit64 = Fin 0\<rparr>,
        \<lparr>entry_number64 = Text ''JE-0002'', debit64 = Fin 0, credit64 = Fin 50\<rparr>,
        \<lparr>entry_number64 = Text ''JE-0001'', debit64 = Fin 0, credit64 = Fin 100\<rparr>]"]
  by (simp add: whole_lines_def)

text \<open>
  One entry with the debits 999.14, 2.77, 912.05 and 583.78 and the credit 2497.72. In
  this order the debits sum to 2497.74 and the entry is within the tolerance; with the
  debit 2.77 moved behind 583.78 the same debits sum to 2497.7400000000002, the
  difference to the credit exceeds the double nearest to 0.02, and the same lines count
  as one unbalanced entry.
\<close>

theorem balance_checker_order_counterexample:
  "(case (mapE read_je_amounts64
           [[(''entry_number'', Text ''JE-0001''), (''debit'', DecStr 999.14), (''credit'', Text [])],
            [(''entry_number'', Text ''JE-0001''), (''debit'', DecStr 2.77), (''credit'', Text [])],
            [(''entry_number'', Text ''JE-0001''), (''debit'', DecStr 912.05), (''credit'', Text [])],
            [(''entry_number'', Text ''JE-0001''), (''debit'', DecStr 583.78), (''credit'', Text [])],
            [(''entry_number'', Text ''JE-0001''), (''debit'', Text []), (''credit'', DecStr 2497.72)]],
          mapE read_je_amounts64
           [[(''entry_number'', Text ''JE-0001''), (''debit'', DecStr 999.14), (''credit'', Text [])],
            [(''entry_number'', Text ''JE-0001''), (''debit'', DecStr 912.05), (''credit'', Text [])],
            [(''entry_number'', Text ''JE-0001''), (''debit'', DecStr 583.78), (''credit'', Text [])],
            [(''entry_number'', Text ''JE-0001''), (''debit'', DecStr 2.77), (''credit'', Text [])],
            [(''entry_number'', Text ''JE-0001''), (''debit'', Text []), (''credit'', DecStr 2497.72)]]) of
      (Inr ls, Inr ls') \<Rightarrow>
         mset ls' = mset ls
         \<and> unbalanced64 (je_totals64 ls) = 0
         \<and> unbalanced64 (je_totals64 ls') = 1
    | _ \<Rightarrow> False)"
  using
    fl_eval [of "49957 / 50" "43"]
    fl_eval [of "8788528382208901 / 8796093022208" "43"]
    fl_eval [of "0" "1074"]
    fl_eval [of "277 / 100" "51"]
    fl_eval [of "2256100751329386793 / 2251799813685248" "43"]
    fl_eval [of "18241 / 20" "43"]
    fl_eval [of "16835370200785223 / 8796093022208" "42"]
    fl_eval [of "29189 / 50" "43"]
    fl_eval [of "10985176692644905 / 4398046511104" "41"]
    fl_eval [of "62443 / 25" "41"]
    fl_eval [of "1373147086580613 / 549755813888" "41"]
    fl_eval [of "5492544365857341 / 2199023255552" "41"]
    fl_eval [of "1 / 50" "58"]
    fl_eval [of "43980465111 / 2199023255552" "58"]
    fl_eval [of "16811005023113707 / 8796093022208" "42"]
    fl_eval [of "10972994103809147 / 4398046511104" "41"]
    fl_eval [of "5624410466634191913 / 2251799813685248" "41"]
    fl_eval [of "5492588346322453 / 2199023255552" "41"]
    fl_eval [of "5497558139 / 274877906944" "58"]
  by (simp add: read_je_amounts64_def float_or_0_64_def getitem_def bindE_def je_totals64_def
      je_totals_add64_def totals_of64_def unbalanced64_def fsub_def py_round_def Let_def)

section \<open>The projector over binary64\<close>

lemma lookup64_update:
  "lookup64 (AList.update k v d) a = (if a = k then v else lookup64 d a)"
  by (simp add: lookup64_def update_conv')

lemma lookup64_gl_add64:
  "lookup64 (gl_add64 k x d) a = (if a = k then fadd (lookup64 d a) x else lookup64 d a)"
  by (simp add: gl_add64_def lookup64_update)

lemma keys_gl_add64: "fst ` set (gl_add64 k x d) = insert k (fst ` set d)"
  by (simp add: gl_add64_def dom_update)

lemma gl_sub64_add: "gl_sub64 k x d = gl_add64 k (fneg x) d"
  by (simp add: gl_sub64_def gl_add64_def fsub_def)

lemma project_invoice64_fold: "project_invoice64 iv g = fold post64 (postings64 iv) g"
  by (simp add: project_invoice64_def postings64_def post64_def Let_def gl_sub64_add)

lemma project_invoices64_fold:
  "project_invoices64 invs g = fold post64 (concat (map postings64 invs)) g"
  unfolding project_invoices64_def
  by (induction invs arbitrary: g) (simp_all add: project_invoice64_fold)

lemma fold_post64_lookup:
  "lookup64 (fold post64 ps g) a
     = foldl fadd (lookup64 g a) (map snd (filter (\<lambda>p. fst p = a) ps))"
proof (induction ps arbitrary: g)
  case Nil
  show ?case by simp
next
  case (Cons p ps)
  have "lookup64 (post64 p g) a
      = (if fst p = a then fadd (lookup64 g a) (snd p) else lookup64 g a)"
    by (simp add: post64_def lookup64_gl_add64)
  then show ?case
    by (simp add: Cons.IH [of "post64 p g"])
qed

lemma fold_post64_keys: "fst ` set (fold post64 ps g) = fst ` set g \<union> fst ` set ps"
  by (induction ps arbitrary: g) (auto simp add: post64_def keys_gl_add64)

lemma project_invoices64_keys:
  "fst ` set (project_invoices64 invs g)
     = fst ` set g \<union> (\<Union>iv\<in>set invs. fst ` set (postings64 iv))"
  by (auto simp add: project_invoices64_fold fold_post64_keys)

lemma map_of_eqI64:
  assumes k: "fst ` set d = fst ` set d'"
    and v: "\<And>a. lookup64 d a = lookup64 d' a"
  shows "map_of d = map_of d'"
proof (rule ext)
  fix a
  show "map_of d a = map_of d' a"
  proof (cases "a \<in> fst ` set d")
    case False
    then have "map_of d a = None" by (simp only: map_of_eq_None_iff not_False_eq_True)
    moreover from False k have "a \<notin> fst ` set d'" by simp
    then have "map_of d' a = None" by (simp only: map_of_eq_None_iff not_False_eq_True)
    ultimately show ?thesis by simp
  next
    case True
    then obtain x where x: "map_of d a = Some x"
      by (metis map_of_eq_None_iff not_Some_eq)
    from True k have "a \<in> fst ` set d'" by simp
    then obtain y where y: "map_of d' a = Some y"
      by (metis map_of_eq_None_iff not_Some_eq)
    from v [of a] x y show ?thesis by (simp add: lookup64_def)
  qed
qed

lemma sum_list_concat_filter:
  fixes h :: "'b \<Rightarrow> real"
  shows "(\<Sum>p\<leftarrow>filter P (concat (map f xs)). h p) = (\<Sum>x\<leftarrow>xs. \<Sum>p\<leftarrow>filter P (f x). h p)"
  by (induction xs) simp_all

lemma whole_postings:
  assumes "is_whole (amt64 iv)" and "is_whole (ret64 iv)"
    and "mag (amt64 iv) + mag (ret64 iv) < 2 ^ 53"
  shows "list_all (\<lambda>p. is_whole (snd p)) (postings64 iv)"
    and "(\<Sum>p\<leftarrow>postings64 iv. mag (snd p)) \<le> 4 * (mag (amt64 iv) + mag (ret64 iv))"
proof -
  from assms(1) obtain a where a: "amt64 iv = Fin a" "a \<in> \<int>" "mag (amt64 iv) = \<bar>a\<bar>"
    using is_whole_val by blast
  from assms(2) obtain r where r: "ret64 iv = Fin r" "r \<in> \<int>" "mag (ret64 iv) = \<bar>r\<bar>"
    using is_whole_val by blast
  from assms(3) a(3) r(3) have b: "\<bar>a\<bar> + \<bar>r\<bar> < 2 ^ 53" by simp
  have n: "fsub (Fin a) (Fin r) = Fin (a - r)"
    using a(2) r(2) b by (rule fsub_whole)
  have w: "a - r \<in> \<int>" using a(2) r(2) by simp
  show "list_all (\<lambda>p. is_whole (snd p)) (postings64 iv)"
    using a(2) r(2) w
    by (simp add: postings64_def n a(1) r(1) is_whole_Fin del: is_whole.simps(1))
  have "\<bar>a - r\<bar> \<le> \<bar>a\<bar> + \<bar>r\<bar>" and "\<bar>r - a\<bar> \<le> \<bar>a\<bar> + \<bar>r\<bar>"
    and "0 \<le> \<bar>a\<bar>" and "0 \<le> \<bar>r\<bar>"
    by simp_all
  then show "(\<Sum>p\<leftarrow>postings64 iv. mag (snd p)) \<le> 4 * (mag (amt64 iv) + mag (ret64 iv))"
    unfolding postings64_def a(1) r(1) n
    by (auto simp del: abs_ge_zero)
qed

lemma lookup64_whole:
  assumes "list_all (\<lambda>(k, v). is_whole v) g"
  shows "is_whole (lookup64 g a)" and "mag (lookup64 g a) \<le> (\<Sum>(k, v)\<leftarrow>g. mag v)"
  using assms
proof (induction g)
  case Nil
  {
    case 1
    show ?case by (simp add: lookup64_def)
  next
    case 2
    show ?case by (simp add: lookup64_def)
  }
next
  case (Cons p g)
  {
    case 1
    with Cons.IH(1) show ?case by (cases p) (simp add: lookup64_def)
  next
    case 2
    have nn: "0 \<le> (\<Sum>(k, v)\<leftarrow>g. mag v)"
      by (rule sum_list_nonneg) (auto simp add: mag_nonneg)
    from 2 Cons.IH(2) nn mag_nonneg [of "snd p"] show ?case
      by (cases p) (auto simp add: lookup64_def split: option.splits)
  }
qed

lemma sum_list_member_le:
  fixes f :: "'a \<Rightarrow> real"
  assumes "\<And>x. 0 \<le> f x" and "x \<in> set xs"
  shows "f x \<le> (\<Sum>x\<leftarrow>xs. f x)"
  using assms(2)
proof (induction xs)
  case Nil
  then show ?case by simp
next
  case (Cons y ys)
  have "0 \<le> (\<Sum>x\<leftarrow>ys. f x)" by (rule sum_list_nonneg) (auto simp add: assms(1))
  with Cons assms(1) [of y] show ?case by auto
qed

lemma whole_postings_concat:
  assumes "list_all (\<lambda>iv. is_whole (amt64 iv) \<and> is_whole (ret64 iv)
             \<and> mag (amt64 iv) + mag (ret64 iv) < 2 ^ 53) invs"
  shows "list_all (\<lambda>p. is_whole (snd p)) (concat (map postings64 invs))
       \<and> (\<Sum>p\<leftarrow>concat (map postings64 invs). mag (snd p))
           \<le> (\<Sum>iv\<leftarrow>invs. 4 * (mag (amt64 iv) + mag (ret64 iv)))"
  using assms
proof (induction invs)
  case Nil
  show ?case by simp
next
  case (Cons iv invs)
  from Cons.prems have w: "is_whole (amt64 iv)" "is_whole (ret64 iv)"
    "mag (amt64 iv) + mag (ret64 iv) < 2 ^ 53"
    and r: "list_all (\<lambda>iv. is_whole (amt64 iv) \<and> is_whole (ret64 iv)
             \<and> mag (amt64 iv) + mag (ret64 iv) < 2 ^ 53) invs"
    by simp_all
  from whole_postings [OF w] Cons.IH [OF r] show ?case by simp
qed

lemma whole_invoices_postings:
  assumes "whole_invoices invs g"
  shows "list_all (\<lambda>p. is_whole (snd p)) (concat (map postings64 invs))"
    and "(\<Sum>(k, v)\<leftarrow>g. mag v) + (\<Sum>p\<leftarrow>concat (map postings64 invs). mag (snd p)) < 2 ^ 53"
proof -
  let ?w = "\<lambda>iv. 4 * (mag (amt64 iv) + mag (ret64 iv))"
  have g0: "0 \<le> (\<Sum>(k, v)\<leftarrow>g. mag v)"
    by (rule sum_list_nonneg) (auto simp add: mag_nonneg)
  from assms have tot: "(\<Sum>(k, v)\<leftarrow>g. mag v) + (\<Sum>iv\<leftarrow>invs. ?w iv) < 2 ^ 53"
    by (simp add: whole_invoices_def)
  have "list_all (\<lambda>iv. is_whole (amt64 iv) \<and> is_whole (ret64 iv)
             \<and> mag (amt64 iv) + mag (ret64 iv) < 2 ^ 53) invs"
    unfolding list_all_iff
  proof
    fix iv
    assume m: "iv \<in> set invs"
    have "?w iv \<le> (\<Sum>iv\<leftarrow>invs. ?w iv)"
      by (rule sum_list_member_le [of ?w, OF _ m]) (simp add: mag_nonneg)
    with tot g0 have "?w iv < 2 ^ 53" by linarith
    moreover have "mag (amt64 iv) + mag (ret64 iv) \<le> ?w iv"
      using mag_nonneg [of "amt64 iv"] mag_nonneg [of "ret64 iv"] by simp
    ultimately have "mag (amt64 iv) + mag (ret64 iv) < 2 ^ 53" by (rule le_less_trans [rotated])
    with assms m
    show "is_whole (amt64 iv) \<and> is_whole (ret64 iv) \<and> mag (amt64 iv) + mag (ret64 iv) < 2 ^ 53"
      by (simp add: whole_invoices_def list_all_iff)
  qed
  from whole_postings_concat [OF this]
  show "list_all (\<lambda>p. is_whole (snd p)) (concat (map postings64 invs))"
    and "(\<Sum>(k, v)\<leftarrow>g. mag v) + (\<Sum>p\<leftarrow>concat (map postings64 invs). mag (snd p)) < 2 ^ 53"
    using tot by simp_all
qed

lemma project_invoices64_whole:
  assumes "whole_invoices invs g"
  shows "lookup64 (project_invoices64 invs g) a =
     Fin (val (lookup64 g a)
          + (\<Sum>iv\<leftarrow>invs. \<Sum>p\<leftarrow>filter (\<lambda>p. fst p = a) (postings64 iv). val (snd p)))"
proof -
  let ?ps = "concat (map postings64 invs)"
  let ?xs = "map snd (filter (\<lambda>p. fst p = a) ?ps)"
  from assms have wg: "list_all (\<lambda>(k, v). is_whole v) g" by (simp add: whole_invoices_def)
  from lookup64_whole [OF wg, of a]
  have l: "lookup64 g a = Fin (val (lookup64 g a))" "val (lookup64 g a) \<in> \<int>"
    and lm: "\<bar>val (lookup64 g a)\<bar> \<le> (\<Sum>(k, v)\<leftarrow>g. mag v)"
    using is_whole_val [of "lookup64 g a"] by simp_all
  from whole_invoices_postings(1) [OF assms] have wx: "list_all is_whole ?xs"
    by (fastforce simp add: list_all_iff)
  have "(\<Sum>x\<leftarrow>?xs. mag x) = (\<Sum>p\<leftarrow>filter (\<lambda>p. fst p = a) ?ps. mag (snd p))"
    by (simp add: comp_def)
  also have "\<dots> \<le> (\<Sum>p\<leftarrow>?ps. mag (snd p))"
    by (rule sum_list_filter_le) (simp add: mag_nonneg)
  finally have "\<bar>val (lookup64 g a)\<bar> + (\<Sum>x\<leftarrow>?xs. mag x) < 2 ^ 53"
    using lm whole_invoices_postings(2) [OF assms] by linarith
  from foldl_fadd_whole [OF wx l(2) this]
  have "foldl fadd (lookup64 g a) ?xs = Fin (val (lookup64 g a) + (\<Sum>x\<leftarrow>?xs. val x))"
    using l(1) by simp
  moreover have "(\<Sum>x\<leftarrow>?xs. val x)
      = (\<Sum>iv\<leftarrow>invs. \<Sum>p\<leftarrow>filter (\<lambda>p. fst p = a) (postings64 iv). val (snd p))"
    by (simp add: comp_def sum_list_concat_filter)
  ultimately show ?thesis
    by (simp only: project_invoices64_fold fold_post64_lookup)
qed

lemma whole_invoices_mset:
  assumes "whole_invoices invs g" and "mset invs' = mset invs"
  shows "whole_invoices invs' g"
proof -
  from assms(2) have "set invs' = set invs" by (rule mset_eq_setD)
  moreover have "(\<Sum>iv\<leftarrow>invs'. 4 * (mag (amt64 iv) + mag (ret64 iv)))
      = (\<Sum>iv\<leftarrow>invs. 4 * (mag (amt64 iv) + mag (ret64 iv)))"
    by (rule sum_list_mset_cong [OF assms(2)])
  ultimately show ?thesis using assms(1) by (simp add: whole_invoices_def list_all_iff)
qed

text \<open>
  Claim C7, over binary64. The projector is a function of the invoice list and of the
  initial accumulator and of nothing else, so a second run over the same list from a
  fresh accumulator gives the same balances. For a permutation of the invoice list,
  from the same initial accumulator, the accumulator has the same accounts; it has the
  same balances when the amounts, the retainages and the initial balances are whole
  numbers, and the absolute values of the initial balances plus four times those of the
  amounts and retainages sum to less than \<open>2 ^ 53\<close>, so that no addition rounds. Without
  that condition the balances depend on the order of the invoices: the example after
  the theorem.
\<close>
theorem projector_order:
  assumes "mset invs' = mset invs"
  shows "fst ` set (project_invoices64 invs' g) = fst ` set (project_invoices64 invs g)
       \<and> (whole_invoices invs g \<longrightarrow>
            map_of (project_invoices64 invs' g) = map_of (project_invoices64 invs g))"
proof (intro conjI impI)
  from assms have s: "set invs' = set invs" by (rule mset_eq_setD)
  then show k: "fst ` set (project_invoices64 invs' g) = fst ` set (project_invoices64 invs g)"
    by (simp add: project_invoices64_keys)
  assume w: "whole_invoices invs g"
  then have w': "whole_invoices invs' g" using assms by (rule whole_invoices_mset)
  show "map_of (project_invoices64 invs' g) = map_of (project_invoices64 invs g)"
  proof (rule map_of_eqI64 [OF k])
    fix a
    show "lookup64 (project_invoices64 invs' g) a = lookup64 (project_invoices64 invs g) a"
      by (simp only: project_invoices64_whole [OF w] project_invoices64_whole [OF w']
          sum_list_mset_cong [OF assms])
  qed
qed

text \<open>The payable and the receivable of the specification, in both orders.\<close>

theorem projector_order_witness:
  "mset [\<lparr>amt64 = Fin 200, ret64 = Fin 10, gl64 = Some 5000, is_paid64 = False,
           invoice_type64 = Text ''payable''\<rparr>,
         \<lparr>amt64 = Fin 100, ret64 = Fin 5, gl64 = Some 4000, is_paid64 = True,
           invoice_type64 = Text ''receivable''\<rparr>]
   = mset [\<lparr>amt64 = Fin 100, ret64 = Fin 5, gl64 = Some 4000, is_paid64 = True,
           invoice_type64 = Text ''receivable''\<rparr>,
         \<lparr>amt64 = Fin 200, ret64 = Fin 10, gl64 = Some 5000, is_paid64 = False,
           invoice_type64 = Text ''payable''\<rparr>]
   \<and> whole_invoices
        [\<lparr>amt64 = Fin 100, ret64 = Fin 5, gl64 = Some 4000, is_paid64 = True,
           invoice_type64 = Text ''receivable''\<rparr>,
         \<lparr>amt64 = Fin 200, ret64 = Fin 10, gl64 = Some 5000, is_paid64 = False,
           invoice_type64 = Text ''payable''\<rparr>] [(1000, Fin 7)]
   \<and> map_of (project_invoices64
        [\<lparr>amt64 = Fin 200, ret64 = Fin 10, gl64 = Some 5000, is_paid64 = False,
           invoice_type64 = Text ''payable''\<rparr>,
         \<lparr>amt64 = Fin 100, ret64 = Fin 5, gl64 = Some 4000, is_paid64 = True,
           invoice_type64 = Text ''receivable''\<rparr>] [(1000, Fin 7)])
     = map_of (project_invoices64
        [\<lparr>amt64 = Fin 100, ret64 = Fin 5, gl64 = Some 4000, is_paid64 = True,
           invoice_type64 = Text ''receivable''\<rparr>,
         \<lparr>amt64 = Fin 200, ret64 = Fin 10, gl64 = Some 5000, is_paid64 = False,
           invoice_type64 = Text ''payable''\<rparr>] [(1000, Fin 7)])"
  using projector_order [of
        "[\<lparr>amt64 = Fin 200, ret64 = Fin 10, gl64 = Some 5000, is_paid64 = False,
           invoice_type64 = Text ''payable''\<rparr>,
         \<lparr>amt64 = Fin 100, ret64 = Fin 5, gl64 = Some 4000, is_paid64 = True,
           invoice_type64 = Text ''receivable''\<rparr>]"
        "[\<lparr>amt64 = Fin 100, ret64 = Fin 5, gl64 = Some 4000, is_paid64 = True,
           invoice_type64 = Text ''receivable''\<rparr>,
         \<lparr>amt64 = Fin 200, ret64 = Fin 10, gl64 = Some 5000, is_paid64 = False,
           invoice_type64 = Text ''payable''\<rparr>]"
        "[(1000, Fin 7)]"]
  by (simp add: whole_invoices_def)

text \<open>
  Three pending receivables of 0.1, 0.2 and 0.3 on account 4000, from the empty
  accumulator. In this order account 1010 ends at 0.6000000000000001, in the reverse
  order at 0.6.
\<close>

theorem projector_order_counterexample:
  "(case (mapE read_invoice64
           [[(''invoice_type'', Text ''receivable''), (''amount'', DecStr 0.1), (''gl_account'', IntStr 4000), (''status'', Text ''pending'')],
            [(''invoice_type'', Text ''receivable''), (''amount'', DecStr 0.2), (''gl_account'', IntStr 4000), (''status'', Text ''pending'')],
            [(''invoice_type'', Text ''receivable''), (''amount'', DecStr 0.3), (''gl_account'', IntStr 4000), (''status'', Text ''pending'')]],
          mapE read_invoice64
           [[(''invoice_type'', Text ''receivable''), (''amount'', DecStr 0.3), (''gl_account'', IntStr 4000), (''status'', Text ''pending'')],
            [(''invoice_type'', Text ''receivable''), (''amount'', DecStr 0.2), (''gl_account'', IntStr 4000), (''status'', Text ''pending'')],
            [(''invoice_type'', Text ''receivable''), (''amount'', DecStr 0.1), (''gl_account'', IntStr 4000), (''status'', Text ''pending'')]]) of
      (Inr invs, Inr invs') \<Rightarrow>
         mset invs' = mset invs
         \<and> lookup64 (project_invoices64 invs []) 1010 = Fin (1351079888211149 / 2251799813685248)
         \<and> lookup64 (project_invoices64 invs' []) 1010 = Fin (5404319552844595 / 9007199254740992)
         \<and> map_of (project_invoices64 invs' []) 1010 \<noteq> map_of (project_invoices64 invs []) 1010
    | _ \<Rightarrow> False)"
  using
    fl_eval [of "1 / 10" "56"]
    fl_eval [of "3602879701896397 / 36028797018963968" "56"]
    fl_eval [of "- (3602879701896397 / 36028797018963968)" "56"]
    fl_eval [of "1 / 5" "55"]
    fl_eval [of "3602879701896397 / 18014398509481984" "55"]
    fl_eval [of "10808639105689191 / 36028797018963968" "54"]
    fl_eval [of "- (10808639105689191 / 36028797018963968)" "54"]
    fl_eval [of "3 / 10" "54"]
    fl_eval [of "5404319552844595 / 18014398509481984" "54"]
    fl_eval [of "10808639105689191 / 18014398509481984" "53"]
    fl_eval [of "- (10808639105689191 / 18014398509481984)" "53"]
    fl_eval [of "- (5404319552844595 / 18014398509481984)" "54"]
    fl_eval [of "1 / 2" "53"]
    fl_eval [of "- (1 / 2)" "53"]
    fl_eval [of "21617278211378381 / 36028797018963968" "53"]
    fl_eval [of "- (21617278211378381 / 36028797018963968)" "53"]
  by (simp add: read_invoice64_def float_or_0_get64_def int_or_None_get_def getitem_def get_def
      bindE_def project_invoices64_def project_invoice64_def gl_add64_def gl_sub64_def
      lookup64_def gl_truthy_def fsub_def py_round_def Let_def)

end
